theory Spec2Isabelle
  imports Complex_Main
begin

section \<open>Trade reconciliation: the position matcher and the ledger writer\<close>

text \<open>
  A shallow embedding of \<^verbatim>\<open>get_hl_closed_trades\<close> and \<^verbatim>\<open>backfill_trades\<close> of
  \<^verbatim>\<open>trade_reconciliation.py\<close>. Python floats are idealised as \<open>real\<close>: rounding,
  infinities and NaN are outside the model. Every exception the modelled code can raise is
  a value of \<open>py_error\<close>.
\<close>

datatype py_error =
  ZeroDivisionError | ValueError | KeyError | AttributeError | FetchError | StoreError

subsection \<open>Raw fills and their fields\<close>

text \<open>
  A fill is a dict of the venue. A numeric field is absent (the \<^verbatim>\<open>.get\<close> default is
  used), a value that \<^verbatim>\<open>float()\<close> accepts, or a value that \<^verbatim>\<open>float()\<close> rejects.
\<close>

datatype raw_num = Absent | Num real | Malformed

record fill =
  f_coin :: "string option"
  f_side :: "string option"
  f_sz :: raw_num
  f_px :: raw_num
  f_time :: "int option"
  f_fee :: raw_num

definition get_coin :: "fill \<Rightarrow> string" where
  "get_coin f = (case f_coin f of None \<Rightarrow> [] | Some c \<Rightarrow> c)"

definition get_side :: "fill \<Rightarrow> string" where
  "get_side f = (case f_side f of None \<Rightarrow> [] | Some s \<Rightarrow> s)"

definition get_time :: "fill \<Rightarrow> int" where
  "get_time f = (case f_time f of None \<Rightarrow> 0 | Some t \<Rightarrow> t)"

definition to_float :: "raw_num \<Rightarrow> py_error + real" where
  "to_float v = (case v of Absent \<Rightarrow> Inr 0 | Num r \<Rightarrow> Inr r | Malformed \<Rightarrow> Inl ValueError)"

text \<open>\<^verbatim>\<open>str.lower\<close>, on the ASCII letters (the vocabulary of sides is ASCII).\<close>

definition lower_char :: "char \<Rightarrow> char" where
  "lower_char c =
     (case map_of (zip ''ABCDEFGHIJKLMNOPQRSTUVWXYZ'' ''abcdefghijklmnopqrstuvwxyz'') c of
        None \<Rightarrow> c
      | Some d \<Rightarrow> d)"

definition lower :: "string \<Rightarrow> string" where
  "lower s = map lower_char s"

definition normalize_side :: "string \<Rightarrow> string" where
  "normalize_side s =
     (if s \<in> set [''b'', ''buy'', ''long''] then ''buy''
      else if s \<in> set [''a'', ''sell'', ''short''] then ''sell''
      else s)"

definition recognized :: "string \<Rightarrow> bool" where
  "recognized s \<longleftrightarrow> s \<in> set [''b'', ''buy'', ''long'', ''a'', ''sell'', ''short'']"

subsection \<open>Positions and round trips\<close>

datatype pside = Long | Short

record entry =
  e_timestamp :: int
  e_price :: real
  e_amount :: real
  e_side :: string

record position =
  entries :: "entry list"
  pos_side :: "pside option"
  total_amount :: real
  avg_entry :: real

record round_trip =
  rt_symbol :: string
  rt_side :: "pside option"
  rt_entry_price :: real
  rt_exit_price :: real
  rt_quantity :: real
  rt_pnl_usd :: real
  rt_pnl_pct :: real
  rt_entry_time :: int
  rt_exit_time :: int
  rt_fee :: real

definition flat_pos :: position where
  "flat_pos = \<lparr>entries = [], pos_side = None, total_amount = 0, avg_entry = 0\<rparr>"

record mstate =
  positions :: "string \<rightharpoonup> position"
  round_trips :: "round_trip list"

definition init_state :: mstate where
  "init_state = \<lparr>positions = Map.empty, round_trips = []\<rparr>"

definition get_pos :: "(string \<rightharpoonup> position) \<Rightarrow> string \<Rightarrow> position" where
  "get_pos ps coin = (case ps coin of None \<Rightarrow> flat_pos | Some p \<Rightarrow> p)"

subsection \<open>The body of the matching loop\<close>

definition is_opening :: "position \<Rightarrow> string \<Rightarrow> bool" where
  "is_opening pos side \<longleftrightarrow>
     total_amount pos = 0 \<or>
     (pos_side pos = Some Long \<and> side = ''buy'') \<or>
     (pos_side pos = Some Short \<and> side = ''sell'')"

text \<open>Lines 94 to 99: the opening branch.\<close>

definition open_fill :: "position \<Rightarrow> string \<Rightarrow> real \<Rightarrow> real \<Rightarrow> int \<Rightarrow> position" where
  "open_fill pos side price amount timestamp =
     (let sd = (if total_amount pos = 0
                then Some (if side = ''buy'' then Long else Short)
                else pos_side pos);
          total_cost = avg_entry pos * total_amount pos + price * amount;
          total' = total_amount pos + amount
      in \<lparr>entries = entries pos @
             [\<lparr>e_timestamp = timestamp, e_price = price, e_amount = amount, e_side = side\<rparr>],
          pos_side = sd,
          total_amount = total',
          avg_entry = (if total' > 0 then total_cost / total' else 0)\<rparr>)"

text \<open>Line 111: the percentage, with Python's division raising on a zero divisor.\<close>

definition pnl_pct_of :: "pside option \<Rightarrow> real \<Rightarrow> real \<Rightarrow> py_error + real" where
  "pnl_pct_of sd entry_price exit_price =
     (if sd = Some Long
      then (if entry_price = 0 then Inl ZeroDivisionError
            else Inr ((exit_price / entry_price - 1) * 100))
      else (if exit_price = 0 then Inl ZeroDivisionError
            else Inr ((entry_price / exit_price - 1) * 100)))"

text \<open>
  Lines 102 to 126: the closing branch, giving the round trip and the new position. The
  message of line 122 calls \<^verbatim>\<open>upper\<close> on the position's side, which raises when the side
  is \<^verbatim>\<open>None\<close>.
\<close>

definition close_fill ::
  "position \<Rightarrow> string \<Rightarrow> real \<Rightarrow> real \<Rightarrow> int \<Rightarrow> real \<Rightarrow> py_error + (round_trip \<times> position)" where
  "close_fill pos coin price amount timestamp fee =
     (let close_amount = min amount (total_amount pos);
          entry_price = avg_entry pos;
          exit_price = price;
          pnl = (if pos_side pos = Some Long
                 then (exit_price - entry_price) * close_amount
                 else (entry_price - exit_price) * close_amount)
      in case pnl_pct_of (pos_side pos) entry_price exit_price of
           Inl e \<Rightarrow> Inl e
         | Inr pnl_pct \<Rightarrow>
             if pos_side pos = None then Inl AttributeError
             else
             Inr (\<lparr>rt_symbol = coin, rt_side = pos_side pos,
                   rt_entry_price = entry_price, rt_exit_price = exit_price,
                   rt_quantity = close_amount, rt_pnl_usd = pnl, rt_pnl_pct = pnl_pct,
                   rt_entry_time = (case entries pos of [] \<Rightarrow> timestamp
                                    | e # _ \<Rightarrow> e_timestamp e),
                   rt_exit_time = timestamp, rt_fee = fee\<rparr>,
                  (if total_amount pos - close_amount \<le> 0 then flat_pos
                   else pos\<lparr>total_amount := total_amount pos - close_amount\<rparr>)))"

text \<open>Lines 67 to 126: one iteration of the loop over the sorted fills.\<close>

definition process_fill :: "mstate \<Rightarrow> fill \<Rightarrow> py_error + mstate" where
  "process_fill st f =
     (let coin = get_coin f;
          side = normalize_side (lower (get_side f))
      in case to_float (f_sz f) of Inl e \<Rightarrow> Inl e | Inr amount \<Rightarrow>
         case to_float (f_px f) of Inl e \<Rightarrow> Inl e | Inr price \<Rightarrow>
         let timestamp = get_time f
         in case to_float (f_fee f) of Inl e \<Rightarrow> Inl e | Inr fee0 \<Rightarrow>
         let fee = \<bar>fee0\<bar>
         in if coin = [] \<or> amount = 0 then Inr st
            else
              let pos = get_pos (positions st) coin
              in if is_opening pos side
                 then Inr (st\<lparr>positions :=
                             (positions st)(coin \<mapsto> open_fill pos side price amount timestamp)\<rparr>)
                 else (case close_fill pos coin price amount timestamp fee of
                         Inl e \<Rightarrow> Inl e
                       | Inr (rt, pos') \<Rightarrow>
                           Inr \<lparr>positions = (positions st)(coin \<mapsto> pos'),
                                round_trips = round_trips st @ [rt]\<rparr>))"

fun match_fills :: "mstate \<Rightarrow> fill list \<Rightarrow> py_error + mstate" where
  "match_fills st [] = Inr st"
| "match_fills st (f # fs) =
     (case process_fill st f of Inl e \<Rightarrow> Inl e | Inr st' \<Rightarrow> match_fills st' fs)"

text \<open>
  Lines 59 and 66: the fills of the lookback window in ascending time (Python's
  \<^verbatim>\<open>sorted\<close> is stable, as \<open>sort_key\<close> is). \<open>since_ts\<close> is the window's lower bound
  in milliseconds, computed by the source from the clock.
\<close>

definition sorted_recent :: "fill list \<Rightarrow> int \<Rightarrow> fill list" where
  "sorted_recent all_fills since_ts =
     sort_key get_time (filter (\<lambda>f. get_time f \<ge> since_ts) all_fills)"

text \<open>
  The whole function: \<open>fetched\<close> is what \<^verbatim>\<open>info.user_fills\<close> gives (or its exception);
  the handler of line 130 turns every exception into the empty list.
\<close>

definition get_hl_closed_trades :: "py_error + fill list \<Rightarrow> int \<Rightarrow> round_trip list" where
  "get_hl_closed_trades fetched since_ts =
     (case fetched of
        Inl e \<Rightarrow> []
      | Inr all_fills \<Rightarrow>
          (case match_fills init_state (sorted_recent all_fills since_ts) of
             Inl e \<Rightarrow> []
           | Inr st \<Rightarrow> round_trips st))"

subsection \<open>The ledger writer\<close>

text \<open>
  A row of the table \<^verbatim>\<open>trades\<close>, with the columns the insert of line 167 fills. Times are
  seconds since the epoch; a row written by another program may hold NULL there, which no
  comparison of the query matches.
\<close>

record trade_row =
  r_user_id :: int
  r_symbol :: string
  r_hl_coin :: string
  r_side :: "pside option"
  r_entry_price :: real
  r_exit_price :: real
  r_quantity :: real
  r_leverage :: int
  r_profit_usd :: real
  r_profit_percent :: real
  r_fee_usd :: real
  r_opened_at :: "real option"
  r_closed_at :: "real option"
  r_source :: string

text \<open>
  What the store does beyond holding rows: whether the query of line 156 or the insert of
  line 166 raises, given the table and the statement's arguments.
\<close>

record store =
  select_raises :: "trade_row list \<Rightarrow> int \<Rightarrow> string \<Rightarrow> real \<Rightarrow> real \<Rightarrow> bool"
  insert_raises :: "trade_row list \<Rightarrow> trade_row \<Rightarrow> bool"

datatype log_event = ErrorInsertingTrade py_error

record wstate =
  trades :: "trade_row list"
  inserted :: nat
  total_pnl :: real
  total_fees :: real
  printed :: "log_event list"

text \<open>
  Lines 153 and 154: a timestamp above \<open>1e10\<close> is taken as milliseconds.
  \<^verbatim>\<open>datetime.utcfromtimestamp\<close> raises outside the years 1 to 9999.
\<close>

definition to_datetime :: "int \<Rightarrow> py_error + real" where
  "to_datetime t =
     (let s = (if real_of_int t > 10 ^ 10 then real_of_int t / 1000 else real_of_int t)
      in if - 62135596800 \<le> s \<and> s < 253402300800 then Inr s else Inl ValueError)"

text \<open>Lines 150 and 151.\<close>

definition fee_amount :: "real \<Rightarrow> round_trip \<Rightarrow> real" where
  "fee_amount fee_rate rt =
     (let position_size = rt_quantity rt * rt_exit_price rt
      in if rt_pnl_usd rt > 0 then position_size * fee_rate else 0)"

text \<open>The condition of the query of lines 156 to 161, on one row.\<close>

definition matches :: "int \<Rightarrow> string \<Rightarrow> real \<Rightarrow> real \<Rightarrow> trade_row \<Rightarrow> bool" where
  "matches user_id symbol entry_time exit_time r \<longleftrightarrow>
     r_user_id r = user_id \<and> r_symbol r = symbol \<and>
     (case r_opened_at r of None \<Rightarrow> False | Some t \<Rightarrow> \<bar>t - entry_time\<bar> < 60) \<and>
     (case r_closed_at r of None \<Rightarrow> False | Some t \<Rightarrow> \<bar>t - exit_time\<bar> < 60)"

definition exists_count :: "trade_row list \<Rightarrow> int \<Rightarrow> string \<Rightarrow> real \<Rightarrow> real \<Rightarrow> nat" where
  "exists_count tbl user_id symbol entry_time exit_time =
     length (filter (matches user_id symbol entry_time exit_time) tbl)"

definition new_row :: "int \<Rightarrow> real \<Rightarrow> round_trip \<Rightarrow> real \<Rightarrow> real \<Rightarrow> trade_row" where
  "new_row user_id fee_rate rt entry_time exit_time =
     \<lparr>r_user_id = user_id, r_symbol = rt_symbol rt, r_hl_coin = rt_symbol rt,
      r_side = rt_side rt, r_entry_price = rt_entry_price rt,
      r_exit_price = rt_exit_price rt, r_quantity = rt_quantity rt, r_leverage = 1,
      r_profit_usd = rt_pnl_usd rt, r_profit_percent = rt_pnl_pct rt,
      r_fee_usd = fee_amount fee_rate rt,
      r_opened_at = Some entry_time, r_closed_at = Some exit_time,
      r_source = ''reconciliation''\<rparr>"

definition log_error :: "py_error \<Rightarrow> wstate \<Rightarrow> wstate" where
  "log_error e st = st\<lparr>printed := printed st @ [ErrorInsertingTrade e]\<rparr>"

text \<open>Lines 149 to 182: one iteration of the loop over the round trips.\<close>

definition write_trade :: "store \<Rightarrow> int \<Rightarrow> real \<Rightarrow> wstate \<Rightarrow> round_trip \<Rightarrow> wstate" where
  "write_trade db user_id fee_rate st rt =
     (case to_datetime (rt_entry_time rt) of Inl e \<Rightarrow> log_error e st | Inr entry_time \<Rightarrow>
      case to_datetime (rt_exit_time rt) of Inl e \<Rightarrow> log_error e st | Inr exit_time \<Rightarrow>
      if select_raises db (trades st) user_id (rt_symbol rt) entry_time exit_time
      then log_error StoreError st
      else if exists_count (trades st) user_id (rt_symbol rt) entry_time exit_time > 0
      then st
      else
        let row = new_row user_id fee_rate rt entry_time exit_time
        in if insert_raises db (trades st) row then log_error StoreError st
           else st\<lparr>trades := trades st @ [row],
                   inserted := inserted st + 1,
                   total_pnl := total_pnl st + rt_pnl_usd rt,
                   total_fees := total_fees st + fee_amount fee_rate rt\<rparr>)"

fun write_all :: "store \<Rightarrow> int \<Rightarrow> real \<Rightarrow> wstate \<Rightarrow> round_trip list \<Rightarrow> wstate" where
  "write_all db user_id fee_rate st [] = st"
| "write_all db user_id fee_rate st (rt # rts) =
     write_all db user_id fee_rate (write_trade db user_id fee_rate st rt) rts"

definition start :: "trade_row list \<Rightarrow> wstate" where
  "start tbl = \<lparr>trades = tbl, inserted = 0, total_pnl = 0, total_fees = 0, printed = []\<rparr>"

text \<open>
  Lines 141 and 142. \<open>FEE_TIERS\<close> is the table of the module \<^verbatim>\<open>config\<close>, which is not
  part of the sources: a tier name gives the tier's \<^verbatim>\<open>rate\<close>, when the tier has one.
  Line 141 evaluates \<^verbatim>\<open>FEE_TIERS['standard']\<close> whatever the tier asked for.
\<close>

definition fee_rate_of :: "(string \<rightharpoonup> real option) \<Rightarrow> string \<Rightarrow> py_error + real" where
  "fee_rate_of FEE_TIERS fee_tier =
     (case FEE_TIERS ''standard'' of
        None \<Rightarrow> Inl KeyError
      | Some std \<Rightarrow>
          (case (case FEE_TIERS fee_tier of None \<Rightarrow> std | Some cfg \<Rightarrow> cfg) of
             None \<Rightarrow> Inl KeyError
           | Some fee_rate \<Rightarrow> Inr fee_rate))"

text \<open>
  The whole function. The returned triple is \<open>(inserted, total_pnl, total_fees)\<close> of the
  final state, whose \<open>trades\<close> is the table the call leaves.
\<close>

definition backfill_trades ::
  "(string \<rightharpoonup> real option) \<Rightarrow> store \<Rightarrow> trade_row list \<Rightarrow> int \<Rightarrow> round_trip list \<Rightarrow> string
     \<Rightarrow> py_error + wstate" where
  "backfill_trades FEE_TIERS db tbl user_id rts fee_tier =
     (case fee_rate_of FEE_TIERS fee_tier of
        Inl e \<Rightarrow> Inl e
      | Inr fee_rate \<Rightarrow> Inr (write_all db user_id fee_rate (start tbl) rts))"

subsection \<open>Notions for stating the writer's properties\<close>

text \<open>A store whose statements never raise.\<close>

definition reliable :: store where
  "reliable = \<lparr>select_raises = (\<lambda>tbl user_id symbol entry_time exit_time. False),
               insert_raises = (\<lambda>tbl row. False)\<rparr>"

text \<open>The query of line 156 finds a row for the round trip in the table.\<close>

definition already_stored :: "trade_row list \<Rightarrow> int \<Rightarrow> round_trip \<Rightarrow> bool" where
  "already_stored tbl user_id rt =
     (case to_datetime (rt_entry_time rt) of Inl e \<Rightarrow> False | Inr entry_time \<Rightarrow>
      case to_datetime (rt_exit_time rt) of Inl e \<Rightarrow> False | Inr exit_time \<Rightarrow>
        exists_count tbl user_id (rt_symbol rt) entry_time exit_time > 0)"

text \<open>One of the times of the round trip is outside the range of \<^verbatim>\<open>datetime\<close>.\<close>

definition unconvertible :: "round_trip \<Rightarrow> bool" where
  "unconvertible rt \<longleftrightarrow>
     (case to_datetime (rt_entry_time rt) of Inl e \<Rightarrow> True | Inr entry_time \<Rightarrow>
      case to_datetime (rt_exit_time rt) of Inl e \<Rightarrow> True | Inr exit_time \<Rightarrow> False)"

text \<open>The round trips of a batch for which the loop inserted a row, in order.\<close>

fun inserted_trades ::
  "store \<Rightarrow> int \<Rightarrow> real \<Rightarrow> wstate \<Rightarrow> round_trip list \<Rightarrow> round_trip list" where
  "inserted_trades db user_id fee_rate st [] = []"
| "inserted_trades db user_id fee_rate st (rt # rts) =
     (let st' = write_trade db user_id fee_rate st rt
      in (if inserted st' \<noteq> inserted st then [rt] else []) @
         inserted_trades db user_id fee_rate st' rts)"

subsection \<open>Values for the examples\<close>

definition mk_fill :: "string \<Rightarrow> string \<Rightarrow> real \<Rightarrow> real \<Rightarrow> int \<Rightarrow> fill" where
  "mk_fill c s q p t =
     \<lparr>f_coin = Some c, f_side = Some s, f_sz = Num q, f_px = Num p, f_time = Some t,
      f_fee = Num 0\<rparr>"

text \<open>The state after a long of 5 at 100 was opened.\<close>

definition long5 :: mstate where
  "long5 = \<lparr>positions = [''BTC'' \<mapsto> \<lparr>entries = [\<lparr>e_timestamp = 1, e_price = 100, e_amount = 5, e_side = ''buy''\<rparr>],
       pos_side = Some Long, total_amount = 5, avg_entry = 100\<rparr>], round_trips = []\<rparr>"

text \<open>The state after a short of 3 at 100 was opened.\<close>

definition short3 :: mstate where
  "short3 = \<lparr>positions = [''BTC'' \<mapsto> \<lparr>entries = [\<lparr>e_timestamp = 1, e_price = 100, e_amount = 3, e_side = ''sell''\<rparr>],
       pos_side = Some Short, total_amount = 3, avg_entry = 100\<rparr>], round_trips = []\<rparr>"

text \<open>
  The state after a long of 2 at 100 and of 1 at 110 was opened and 1 was closed at 120.
\<close>

definition after_partial :: mstate where
  "after_partial =
     \<lparr>positions = [''BTC'' \<mapsto>
        \<lparr>entries = [\<lparr>e_timestamp = 1, e_price = 100, e_amount = 2, e_side = ''buy''\<rparr>,
                    \<lparr>e_timestamp = 2, e_price = 110, e_amount = 1, e_side = ''buy''\<rparr>],
         pos_side = Some Long, total_amount = 2, avg_entry = 310 / 3\<rparr>],
      round_trips = [\<lparr>rt_symbol = ''BTC'', rt_side = Some Long, rt_entry_price = 310 / 3,
        rt_exit_price = 120, rt_quantity = 1, rt_pnl_usd = 50 / 3, rt_pnl_pct = 500 / 31,
        rt_entry_time = 1, rt_exit_time = 3, rt_fee = 0\<rparr>]\<rparr>"

text \<open>A profitable and a losing round trip.\<close>

definition rt_win :: round_trip where
  "rt_win = \<lparr>rt_symbol = ''BTC'', rt_side = Some Long, rt_entry_price = 100,
      rt_exit_price = 110, rt_quantity = 2, rt_pnl_usd = 20, rt_pnl_pct = 10,
      rt_entry_time = 1000, rt_exit_time = 2000, rt_fee = 0\<rparr>"

definition rt_loss :: round_trip where
  "rt_loss = \<lparr>rt_symbol = ''ETH'', rt_side = Some Long, rt_entry_price = 50,
      rt_exit_price = 40, rt_quantity = 3, rt_pnl_usd = - 30, rt_pnl_pct = - 20,
      rt_entry_time = 1000, rt_exit_time = 2000, rt_fee = 0\<rparr>"

text \<open>A second profitable round trip, and a store that refuses the rows of one symbol.\<close>

definition rt_other :: round_trip where
  "rt_other = \<lparr>rt_symbol = ''SOL'', rt_side = Some Short, rt_entry_price = 10,
      rt_exit_price = 8, rt_quantity = 5, rt_pnl_usd = 10, rt_pnl_pct = 25,
      rt_entry_time = 3000, rt_exit_time = 4000, rt_fee = 0\<rparr>"

definition rejects :: "string \<Rightarrow> store" where
  "rejects symbol = \<lparr>select_raises = (\<lambda>tbl user_id sym entry_time exit_time. False),
                     insert_raises = (\<lambda>tbl row. r_symbol row = symbol)\<rparr>"

subsection \<open>Notions for stating the matcher's properties\<close>

text \<open>The realized profit of a round trip agrees with its own fields.\<close>

definition pnl_ok :: "round_trip \<Rightarrow> bool" where
  "pnl_ok rt \<longleftrightarrow>
     (rt_side rt = Some Long \<longrightarrow>
        rt_pnl_usd rt = (rt_exit_price rt - rt_entry_price rt) * rt_quantity rt) \<and>
     (rt_side rt = Some Short \<longrightarrow>
        rt_pnl_usd rt = (rt_entry_price rt - rt_exit_price rt) * rt_quantity rt)"

text \<open>
  With \<open>b\<close> the time of the last fill processed: a position that is not flat has entries,
  the entries are in ascending time, and none is later than \<open>b\<close>.
\<close>

definition entries_ok :: "int \<Rightarrow> position \<Rightarrow> bool" where
  "entries_ok b pos \<longleftrightarrow>
     (total_amount pos \<noteq> 0 \<longrightarrow> entries pos \<noteq> []) \<and>
     sorted (map e_timestamp (entries pos)) \<and>
     (\<forall>e \<in> set (entries pos). e_timestamp e \<le> b)"

definition positions_ok :: "int \<Rightarrow> mstate \<Rightarrow> bool" where
  "positions_ok b st \<longleftrightarrow> (\<forall>c p. positions st c = Some p \<longrightarrow> entries_ok b p)"

text \<open>
  The quantity of a fill, and what the loop maintains when no quantity is negative: no
  position is negative, and a position whose \<open>total_amount\<close> is zero has no entries.
\<close>

definition amount_of :: "fill \<Rightarrow> real" where
  "amount_of f = (case to_float (f_sz f) of Inl e \<Rightarrow> 0 | Inr amount \<Rightarrow> amount)"

definition flat_when_zero :: "position \<Rightarrow> bool" where
  "flat_when_zero pos \<longleftrightarrow> 0 \<le> total_amount pos \<and> (total_amount pos = 0 \<longrightarrow> entries pos = [])"

definition all_flat_when_zero :: "mstate \<Rightarrow> bool" where
  "all_flat_when_zero st \<longleftrightarrow> (\<forall>c p. positions st c = Some p \<longrightarrow> flat_when_zero p)"

section \<open>Properties of the matcher\<close>

subsection \<open>The three outcomes of one iteration\<close>

lemma process_fill_discard:
  assumes "to_float (f_sz f) = Inr amount" "to_float (f_px f) = Inr price"
    "to_float (f_fee f) = Inr fee0" "get_coin f = [] \<or> amount = 0"
  shows "process_fill st f = Inr st"
  using assms by (auto simp add: process_fill_def)

lemma process_fill_open:
  assumes "to_float (f_sz f) = Inr amount" "to_float (f_px f) = Inr price"
    "to_float (f_fee f) = Inr fee0" "get_coin f \<noteq> []" "amount \<noteq> 0"
    "is_opening (get_pos (positions st) (get_coin f)) (normalize_side (lower (get_side f)))"
  shows "process_fill st f =
     Inr (st\<lparr>positions := (positions st)(get_coin f \<mapsto>
            open_fill (get_pos (positions st) (get_coin f))
              (normalize_side (lower (get_side f))) price amount (get_time f))\<rparr>)"
  using assms by (simp add: process_fill_def Let_def)

lemma process_fill_close:
  assumes "to_float (f_sz f) = Inr amount" "to_float (f_px f) = Inr price"
    "to_float (f_fee f) = Inr fee0" "get_coin f \<noteq> []" "amount \<noteq> 0"
    "\<not> is_opening (get_pos (positions st) (get_coin f)) (normalize_side (lower (get_side f)))"
  shows "process_fill st f =
     (case close_fill (get_pos (positions st) (get_coin f)) (get_coin f) price amount
             (get_time f) \<bar>fee0\<bar> of
        Inl e \<Rightarrow> Inl e
      | Inr (rt, pos') \<Rightarrow>
          Inr \<lparr>positions = (positions st)(get_coin f \<mapsto> pos'),
               round_trips = round_trips st @ [rt]\<rparr>)"
  using assms by (simp add: process_fill_def Let_def)

lemma process_fill_close_result:
  assumes "to_float (f_sz f) = Inr amount" "to_float (f_px f) = Inr price"
    "to_float (f_fee f) = Inr fee0" "get_coin f \<noteq> []" "amount \<noteq> 0"
    "\<not> is_opening (get_pos (positions st) (get_coin f)) (normalize_side (lower (get_side f)))"
    "process_fill st f = Inr st'"
  shows "\<exists>rt pos'. close_fill (get_pos (positions st) (get_coin f)) (get_coin f) price amount
             (get_time f) \<bar>fee0\<bar> = Inr (rt, pos') \<and>
           positions st' = (positions st)(get_coin f \<mapsto> pos') \<and>
           round_trips st' = round_trips st @ [rt]"
proof (cases "close_fill (get_pos (positions st) (get_coin f)) (get_coin f) price amount
             (get_time f) \<bar>fee0\<bar>")
  case (Inl e)
  with process_fill_close [OF assms(1-6)] assms(7) show ?thesis by simp
next
  case (Inr p)
  obtain rt pos' where p: "p = (rt, pos')" by (cases p)
  from process_fill_close [OF assms(1-6)] assms(7) Inr p
  have "st' = \<lparr>positions = (positions st)(get_coin f \<mapsto> pos'),
               round_trips = round_trips st @ [rt]\<rparr>" by simp
  then have "positions st' = (positions st)(get_coin f \<mapsto> pos')"
    "round_trips st' = round_trips st @ [rt]" by simp_all
  with Inr p show ?thesis by simp
qed

lemma open_fill_entries:
  "entries (open_fill pos side price amount ts) =
     entries pos @ [\<lparr>e_timestamp = ts, e_price = price, e_amount = amount, e_side = side\<rparr>]"
  by (simp add: open_fill_def Let_def)

lemma open_fill_not_stored:
  "positions st c \<noteq> Some (open_fill (get_pos (positions st) c) side price amount ts)"
proof (cases "positions st c")
  case None
  then show ?thesis by simp
next
  case (Some p)
  have "entries p \<noteq> entries (open_fill p side price amount ts)"
    by (simp add: open_fill_entries)
  then have "p \<noteq> open_fill p side price amount ts" by auto
  with Some show ?thesis by (simp add: get_pos_def)
qed

lemma open_changes_state:
  "st\<lparr>positions := (positions st)(c \<mapsto> open_fill (get_pos (positions st) c) side price amount ts)\<rparr> \<noteq> st"
proof
  assume "st\<lparr>positions := (positions st)(c \<mapsto> open_fill (get_pos (positions st) c) side price amount ts)\<rparr> = st"
  then have "positions (st\<lparr>positions := (positions st)(c \<mapsto> open_fill (get_pos (positions st) c) side price amount ts)\<rparr>) c = positions st c"
    by simp
  then have "positions st c = Some (open_fill (get_pos (positions st) c) side price amount ts)"
    by simp
  with open_fill_not_stored show False by blast
qed

lemmas run_defs = get_hl_closed_trades_def sorted_recent_def mk_fill_def process_fill_def
  get_coin_def get_side_def get_time_def to_float_def lower_def lower_char_def
  normalize_side_def init_state_def get_pos_def flat_pos_def is_opening_def
  open_fill_def close_fill_def pnl_pct_of_def Let_def

lemma negative_example:
  "match_fills init_state (sorted_recent [mk_fill ''BTC'' ''B'' (- 1) 100 1] 0) =
     Inr \<lparr>positions = [''BTC'' \<mapsto> \<lparr>entries = [\<lparr>e_timestamp = 1, e_price = 100, e_amount = - 1, e_side = ''buy''\<rparr>],
             pos_side = Some Long, total_amount = - 1, avg_entry = 0\<rparr>], round_trips = []\<rparr>"
  by (simp add: run_defs)

lemma long5_reached: "process_fill init_state (mk_fill ''BTC'' ''B'' 5 100 1) = Inr long5"
  by (simp add: run_defs long5_def)

lemma short3_reached: "process_fill init_state (mk_fill ''BTC'' ''A'' 3 100 1) = Inr short3"
  by (simp add: run_defs short3_def)

subsection \<open>The degenerate-input filter\<close>

text \<open>
  C10. The filter of line 79 leaves the state as it was exactly when the instrument is
  empty or the quantity is zero. A fill with a non-empty instrument and a strictly negative
  quantity is not discarded, and there is a stream with a negative quantity after which the
  position's \<open>total_amount\<close> is negative.
\<close>

theorem degenerate_filter:
  assumes "to_float (f_sz f) = Inr amount" "to_float (f_px f) = Inr price"
    "to_float (f_fee f) = Inr fee0"
  shows "((process_fill st f = Inr st) \<longleftrightarrow> (get_coin f = [] \<or> amount = 0)) \<and>
    (get_coin f \<noteq> [] \<and> amount < 0 \<longrightarrow> process_fill st f \<noteq> Inr st) \<and>
    (\<exists>fs st'. (\<exists>g \<in> set fs. \<exists>q < 0. f_sz g = Num q) \<and>
        match_fills init_state (sorted_recent fs 0) = Inr st' \<and>
        total_amount (get_pos (positions st') ''BTC'') < 0)"
proof (intro conjI)
  show "(process_fill st f = Inr st) \<longleftrightarrow> (get_coin f = [] \<or> amount = 0)"
  proof
    assume same: "process_fill st f = Inr st"
    show "get_coin f = [] \<or> amount = 0"
    proof (rule ccontr)
      assume "\<not> (get_coin f = [] \<or> amount = 0)"
      then have ne: "get_coin f \<noteq> []" "amount \<noteq> 0" by simp_all
      show False
      proof (cases "is_opening (get_pos (positions st) (get_coin f)) (normalize_side (lower (get_side f)))")
        case True
        from process_fill_open [OF assms ne True] same
        have "st\<lparr>positions := (positions st)(get_coin f \<mapsto>
            open_fill (get_pos (positions st) (get_coin f))
              (normalize_side (lower (get_side f))) price amount (get_time f))\<rparr> = st"
          by simp
        with open_changes_state show False by blast
      next
        case False
        from process_fill_close_result [OF assms ne False same]
        show False by auto
      qed
    qed
  next
    assume "get_coin f = [] \<or> amount = 0"
    then show "process_fill st f = Inr st" by (rule process_fill_discard [OF assms])
  qed
  then show "get_coin f \<noteq> [] \<and> amount < 0 \<longrightarrow> process_fill st f \<noteq> Inr st"
    by auto
next
  show "\<exists>fs st'. (\<exists>g \<in> set fs. \<exists>q < 0. f_sz g = Num q) \<and>
        match_fills init_state (sorted_recent fs 0) = Inr st' \<and>
        total_amount (get_pos (positions st') ''BTC'') < 0"
    apply (rule exI [of _ "[mk_fill ''BTC'' ''B'' (- 1) 100 1]"])
    apply (subst negative_example)
    apply (simp add: mk_fill_def get_pos_def)
    done
qed

theorem degenerate_filter_witness:
  "process_fill init_state (mk_fill ''BTC'' ''B'' (- 1) 100 1) \<noteq> Inr init_state \<and>
   process_fill init_state (mk_fill ''BTC'' ''B'' 0 100 1) = Inr init_state \<and>
   process_fill init_state (mk_fill [] ''B'' 3 100 1) = Inr init_state"
  using degenerate_filter [of "mk_fill ''BTC'' ''B'' (- 1) 100 1" "- 1" 100 0 init_state]
    degenerate_filter [of "mk_fill ''BTC'' ''B'' 0 100 1" 0 100 0 init_state]
    degenerate_filter [of "mk_fill [] ''B'' 3 100 1" 3 100 0 init_state]
  by (simp add: mk_fill_def to_float_def get_coin_def)


subsection \<open>The closing branch\<close>

lemma close_fill_Inr:
  assumes "close_fill pos coin price amount ts fee = Inr (rt, pos')"
  shows "rt_symbol rt = coin" "rt_side rt = pos_side pos" "rt_entry_price rt = avg_entry pos"
    "rt_exit_price rt = price" "rt_quantity rt = min amount (total_amount pos)"
    "rt_pnl_usd rt = (if pos_side pos = Some Long
                      then (price - avg_entry pos) * min amount (total_amount pos)
                      else (avg_entry pos - price) * min amount (total_amount pos))"
    "rt_entry_time rt = (case entries pos of [] \<Rightarrow> ts | e # _ \<Rightarrow> e_timestamp e)"
    "rt_exit_time rt = ts" "rt_fee rt = fee"
    "pos' = (if total_amount pos - min amount (total_amount pos) \<le> 0 then flat_pos
             else pos\<lparr>total_amount := total_amount pos - min amount (total_amount pos)\<rparr>)"
  using assms by (auto simp add: close_fill_def Let_def split: sum.splits if_splits)

lemma close_fill_new_total:
  assumes "close_fill pos coin price amount ts fee = Inr (rt, pos')"
  shows "total_amount pos' = total_amount pos - min amount (total_amount pos)"
proof -
  have "total_amount pos - min amount (total_amount pos) \<ge> 0" by simp
  then show ?thesis
    unfolding close_fill_Inr(10) [OF assms] by (auto simp add: flat_pos_def)
qed

lemma get_pos_upd: "get_pos (ps(c \<mapsto> p)) c = p"
  by (simp add: get_pos_def)

lemma capped_example:
  "match_fills init_state
     (sorted_recent [mk_fill ''BTC'' ''B'' 5 100 1, mk_fill ''BTC'' ''A'' 8 110 2] 0) =
   Inr \<lparr>positions = [''BTC'' \<mapsto> flat_pos],
        round_trips = [\<lparr>rt_symbol = ''BTC'', rt_side = Some Long, rt_entry_price = 100,
          rt_exit_price = 110, rt_quantity = 5, rt_pnl_usd = 50, rt_pnl_pct = 10,
          rt_entry_time = 1, rt_exit_time = 2, rt_fee = 0\<rparr>]\<rparr>"
  by (simp add: run_defs)

text \<open>
  C3. A closing fill that is processed emits one round trip whose quantity is the minimum
  of the fill's quantity and the position's \<open>total_amount\<close>; \<open>total_amount\<close> falls by
  exactly that minimum; a position that reaches zero is the flat position (no entries, no
  side, average 0); a fill at least as large as the position leaves the flat position, so
  the excess opens nothing; a smaller fill leaves the position with only its amount
  reduced; no other instrument is touched. Long 5 at 100 then a close of 8 at 110 gives
  one round trip of quantity 5 and a flat position.
\<close>

theorem capped_close:
  assumes "to_float (f_sz f) = Inr amount" "to_float (f_px f) = Inr price"
    "to_float (f_fee f) = Inr fee0" "get_coin f \<noteq> []" "amount \<noteq> 0"
    "\<not> is_opening (get_pos (positions st) (get_coin f)) (normalize_side (lower (get_side f)))"
    "process_fill st f = Inr st'"
    "pos = get_pos (positions st) (get_coin f)"
    "pos' = get_pos (positions st') (get_coin f)"
  shows "(\<exists>rt. round_trips st' = round_trips st @ [rt] \<and>
            rt_quantity rt = min amount (total_amount pos)) \<and>
     total_amount pos' = total_amount pos - min amount (total_amount pos) \<and>
     (total_amount pos' = 0 \<longrightarrow> pos' = flat_pos) \<and>
     (total_amount pos \<le> amount \<longrightarrow> pos' = flat_pos) \<and>
     (amount < total_amount pos \<longrightarrow> pos' = pos\<lparr>total_amount := total_amount pos - amount\<rparr>) \<and>
     (\<forall>c. c \<noteq> get_coin f \<longrightarrow> positions st' c = positions st c) \<and>
     match_fills init_state
       (sorted_recent [mk_fill ''BTC'' ''B'' 5 100 1, mk_fill ''BTC'' ''A'' 8 110 2] 0) =
     Inr \<lparr>positions = [''BTC'' \<mapsto> flat_pos],
          round_trips = [\<lparr>rt_symbol = ''BTC'', rt_side = Some Long, rt_entry_price = 100,
            rt_exit_price = 110, rt_quantity = 5, rt_pnl_usd = 50, rt_pnl_pct = 10,
            rt_entry_time = 1, rt_exit_time = 2, rt_fee = 0\<rparr>]\<rparr>"
proof -
  from process_fill_close_result [OF assms(1-7)]
  obtain rt p where cf: "close_fill pos (get_coin f) price amount (get_time f) \<bar>fee0\<bar> = Inr (rt, p)"
    and ps: "positions st' = (positions st)(get_coin f \<mapsto> p)"
    and rts: "round_trips st' = round_trips st @ [rt]"
    unfolding assms(8) by blast
  have p: "pos' = p" unfolding assms(9) ps by (rule get_pos_upd)
  have q: "rt_quantity rt = min amount (total_amount pos)" by (rule close_fill_Inr(5) [OF cf])
  have tot: "total_amount pos' = total_amount pos - min amount (total_amount pos)"
    unfolding p by (rule close_fill_new_total [OF cf])
  have shape: "pos' = (if total_amount pos - min amount (total_amount pos) \<le> 0 then flat_pos
             else pos\<lparr>total_amount := total_amount pos - min amount (total_amount pos)\<rparr>)"
    unfolding p by (rule close_fill_Inr(10) [OF cf])
  have a: "total_amount pos' = 0 \<longrightarrow> pos' = flat_pos"
    using tot shape by auto
  have b: "total_amount pos \<le> amount \<longrightarrow> pos' = flat_pos"
    using shape by auto
  have c: "amount < total_amount pos \<longrightarrow> pos' = pos\<lparr>total_amount := total_amount pos - amount\<rparr>"
    using shape by auto
  have d: "\<forall>c. c \<noteq> get_coin f \<longrightarrow> positions st' c = positions st c"
    unfolding ps by simp
  from rts q tot a b c d capped_example show ?thesis by blast
qed


theorem capped_close_witness:
  "process_fill long5 (mk_fill ''BTC'' ''A'' 8 110 2) =
     Inr \<lparr>positions = [''BTC'' \<mapsto> flat_pos],
          round_trips = [\<lparr>rt_symbol = ''BTC'', rt_side = Some Long, rt_entry_price = 100,
            rt_exit_price = 110, rt_quantity = 5, rt_pnl_usd = 50, rt_pnl_pct = 10,
            rt_entry_time = 1, rt_exit_time = 2, rt_fee = 0\<rparr>]\<rparr> \<and>
   get_pos [''BTC'' \<mapsto> flat_pos] ''BTC'' = flat_pos \<and>
   (\<exists>st'. process_fill long5 (mk_fill ''BTC'' ''A'' 2 110 2) = Inr st' \<and>
      get_pos (positions st') ''BTC'' =
        (get_pos (positions long5) ''BTC'')\<lparr>total_amount := 5 - 2\<rparr>)"
proof -
  let ?f = "mk_fill ''BTC'' ''A'' 8 110 2"
  let ?g = "mk_fill ''BTC'' ''A'' 2 110 2"
  let ?st' = "\<lparr>positions = [''BTC'' \<mapsto> flat_pos],
          round_trips = [\<lparr>rt_symbol = ''BTC'', rt_side = Some Long, rt_entry_price = 100,
            rt_exit_price = 110, rt_quantity = 5, rt_pnl_usd = 50, rt_pnl_pct = 10,
            rt_entry_time = 1, rt_exit_time = 2, rt_fee = 0\<rparr>]\<rparr>"
  have h1: "to_float (f_sz ?f) = Inr 8" by (simp add: mk_fill_def to_float_def)
  have h2: "to_float (f_px ?f) = Inr 110" by (simp add: mk_fill_def to_float_def)
  have h3: "to_float (f_fee ?f) = Inr 0" by (simp add: mk_fill_def to_float_def)
  have h4: "get_coin ?f \<noteq> []" by (simp add: mk_fill_def get_coin_def)
  have h5: "(8::real) \<noteq> 0" by simp
  have h6: "\<not> is_opening (get_pos (positions long5) (get_coin ?f))
              (normalize_side (lower (get_side ?f)))"
    by (simp add: run_defs long5_def)
  have h7: "process_fill long5 ?f = Inr ?st'"
    by (simp add: run_defs long5_def)
  have tot: "total_amount (get_pos (positions long5) ''BTC'') = 5"
    by (simp add: long5_def get_pos_def)
  have cf: "get_coin ?f = ''BTC''" by (simp add: mk_fill_def get_coin_def)
  from capped_close [OF h1 h2 h3 h4 h5 h6 h7 refl refl]
  have "total_amount (get_pos (positions long5) (get_coin ?f)) \<le> 8 \<longrightarrow>
      get_pos (positions ?st') (get_coin ?f) = flat_pos"
    by blast
  then have a: "get_pos [''BTC'' \<mapsto> flat_pos] ''BTC'' = flat_pos"
    unfolding cf using tot by simp
  have g1: "to_float (f_sz ?g) = Inr 2" by (simp add: mk_fill_def to_float_def)
  have g2: "to_float (f_px ?g) = Inr 110" by (simp add: mk_fill_def to_float_def)
  have g3: "to_float (f_fee ?g) = Inr 0" by (simp add: mk_fill_def to_float_def)
  have g4: "get_coin ?g \<noteq> []" by (simp add: mk_fill_def get_coin_def)
  have g5: "(2::real) \<noteq> 0" by simp
  have g6: "\<not> is_opening (get_pos (positions long5) (get_coin ?g))
              (normalize_side (lower (get_side ?g)))"
    by (simp add: run_defs long5_def)
  have cg: "get_coin ?g = ''BTC''" by (simp add: mk_fill_def get_coin_def)
  obtain st' where g7: "process_fill long5 ?g = Inr st'"
    by (simp add: run_defs long5_def)
  from capped_close [OF g1 g2 g3 g4 g5 g6 g7 refl refl]
  have "2 < total_amount (get_pos (positions long5) (get_coin ?g)) \<longrightarrow>
      get_pos (positions st') (get_coin ?g) =
        (get_pos (positions long5) (get_coin ?g))
          \<lparr>total_amount := total_amount (get_pos (positions long5) (get_coin ?g)) - 2\<rparr>"
    by blast
  then have "get_pos (positions st') ''BTC'' =
        (get_pos (positions long5) ''BTC'')\<lparr>total_amount := 5 - 2\<rparr>"
    unfolding cg using tot by simp
  with g7 have b: "\<exists>st'. process_fill long5 ?g = Inr st' \<and>
      get_pos (positions st') ''BTC'' =
        (get_pos (positions long5) ''BTC'')\<lparr>total_amount := 5 - 2\<rparr>"
    by blast
  from h7 a b show ?thesis by blast
qed


subsection \<open>Realized profit and loss\<close>

lemma close_fill_pnl_ok:
  assumes "close_fill pos coin price amount ts fee = Inr (rt, pos')"
  shows "pnl_ok rt"
  unfolding pnl_ok_def close_fill_Inr(2,3,4,5,6) [OF assms] by simp

lemma process_fill_round_trips:
  assumes "process_fill st f = Inr st'"
  shows "round_trips st' = round_trips st \<or>
    (\<exists>pos coin price amount ts fee rt pos'.
        close_fill pos coin price amount ts fee = Inr (rt, pos') \<and>
        round_trips st' = round_trips st @ [rt])"
  using assms
  by (auto simp add: process_fill_def Let_def split: sum.splits if_splits prod.splits)

lemma process_fill_pnl_ok:
  assumes "process_fill st f = Inr st'" "\<forall>rt \<in> set (round_trips st). pnl_ok rt"
  shows "\<forall>rt \<in> set (round_trips st'). pnl_ok rt"
  using process_fill_round_trips [OF assms(1)] assms(2) close_fill_pnl_ok by auto

lemma match_fills_pnl_ok:
  "match_fills st fs = Inr st' \<Longrightarrow> \<forall>rt \<in> set (round_trips st). pnl_ok rt \<Longrightarrow>
   \<forall>rt \<in> set (round_trips st'). pnl_ok rt"
proof (induction fs arbitrary: st)
  case Nil
  then show ?case by simp
next
  case (Cons f fs)
  from Cons.prems(1) obtain st1 where s1: "process_fill st f = Inr st1"
    and rest: "match_fills st1 fs = Inr st'"
    by (auto split: sum.splits)
  from process_fill_pnl_ok [OF s1 Cons.prems(2)] Cons.IH [OF rest] show ?case by blast
qed

lemma get_hl_closed_trades_pnl_ok:
  "\<forall>rt \<in> set (get_hl_closed_trades fetched since_ts). pnl_ok rt"
proof (cases fetched)
  case (Inl e)
  then show ?thesis by (simp add: get_hl_closed_trades_def)
next
  case (Inr all_fills)
  show ?thesis
  proof (cases "match_fills init_state (sorted_recent all_fills since_ts)")
    case (Inl e)
    with Inr show ?thesis by (simp add: get_hl_closed_trades_def)
  next
    case st: (Inr st)
    have "\<forall>rt \<in> set (round_trips init_state). pnl_ok rt" by (simp add: init_state_def)
    from match_fills_pnl_ok [OF st this] Inr st show ?thesis
      by (simp add: get_hl_closed_trades_def)
  qed
qed

lemma short_example:
  "get_hl_closed_trades (Inr [mk_fill ''BTC'' ''A'' 3 100 1, mk_fill ''BTC'' ''B'' 3 90 2]) 0 =
     [\<lparr>rt_symbol = ''BTC'', rt_side = Some Short, rt_entry_price = 100,
       rt_exit_price = 90, rt_quantity = 3, rt_pnl_usd = 30, rt_pnl_pct = (100 / 90 - 1) * 100,
       rt_entry_time = 1, rt_exit_time = 2, rt_fee = 0\<rparr>]"
  by (simp add: run_defs)

text \<open>
  C5. The round trip a closing fill emits records the position's side and average entry
  price, the fill's price as exit price and the matched quantity, and its \<open>pnl_usd\<close> is
  \<open>(exit - entry) * close_qty\<close> on a long position and \<open>(entry - exit) * close_qty\<close> on a
  short one; every round trip the function returns satisfies the formula on its own
  fields. A short of 3 at 100 closed at 90 gives a profit of 30.
\<close>

theorem realized_pnl:
  assumes "to_float (f_sz f) = Inr amount" "to_float (f_px f) = Inr price"
    "to_float (f_fee f) = Inr fee0" "get_coin f \<noteq> []" "amount \<noteq> 0"
    "\<not> is_opening (get_pos (positions st) (get_coin f)) (normalize_side (lower (get_side f)))"
    "process_fill st f = Inr st'"
    "pos = get_pos (positions st) (get_coin f)"
    "close_qty = min amount (total_amount pos)"
  shows "(\<exists>rt. round_trips st' = round_trips st @ [rt] \<and>
            rt_side rt = pos_side pos \<and> rt_entry_price rt = avg_entry pos \<and>
            rt_exit_price rt = price \<and> rt_quantity rt = close_qty \<and>
            (pos_side pos = Some Long \<longrightarrow> rt_pnl_usd rt = (price - avg_entry pos) * close_qty) \<and>
            (pos_side pos = Some Short \<longrightarrow> rt_pnl_usd rt = (avg_entry pos - price) * close_qty)) \<and>
     (\<forall>rt \<in> set (get_hl_closed_trades fetched since_ts). pnl_ok rt) \<and>
     map rt_pnl_usd (get_hl_closed_trades
        (Inr [mk_fill ''BTC'' ''A'' 3 100 1, mk_fill ''BTC'' ''B'' 3 90 2]) 0) = [30]"
proof -
  from process_fill_close_result [OF assms(1-7)]
  obtain rt p where cf: "close_fill pos (get_coin f) price amount (get_time f) \<bar>fee0\<bar> = Inr (rt, p)"
    and rts: "round_trips st' = round_trips st @ [rt]"
    unfolding assms(8) by blast
  note r = close_fill_Inr [OF cf]
  have "rt_side rt = pos_side pos" "rt_entry_price rt = avg_entry pos"
    "rt_exit_price rt = price" "rt_quantity rt = close_qty"
    "pos_side pos = Some Long \<longrightarrow> rt_pnl_usd rt = (price - avg_entry pos) * close_qty"
    "pos_side pos = Some Short \<longrightarrow> rt_pnl_usd rt = (avg_entry pos - price) * close_qty"
    unfolding assms(9) using r(2,3,4,5,6) by simp_all
  with rts have first: "\<exists>rt. round_trips st' = round_trips st @ [rt] \<and>
            rt_side rt = pos_side pos \<and> rt_entry_price rt = avg_entry pos \<and>
            rt_exit_price rt = price \<and> rt_quantity rt = close_qty \<and>
            (pos_side pos = Some Long \<longrightarrow> rt_pnl_usd rt = (price - avg_entry pos) * close_qty) \<and>
            (pos_side pos = Some Short \<longrightarrow> rt_pnl_usd rt = (avg_entry pos - price) * close_qty)"
    by blast
  have third: "map rt_pnl_usd (get_hl_closed_trades
        (Inr [mk_fill ''BTC'' ''A'' 3 100 1, mk_fill ''BTC'' ''B'' 3 90 2]) 0) = [30]"
    unfolding short_example by simp
  from first get_hl_closed_trades_pnl_ok third show ?thesis by blast
qed

theorem realized_pnl_witness:
  "(\<exists>st' rt. process_fill short3 (mk_fill ''BTC'' ''B'' 3 90 2) = Inr st' \<and>
      round_trips st' = [rt] \<and> rt_pnl_usd rt = (100 - 90) * 3) \<and>
   (\<exists>st' rt. process_fill long5 (mk_fill ''BTC'' ''A'' 2 110 2) = Inr st' \<and>
      round_trips st' = [rt] \<and> rt_pnl_usd rt = (110 - 100) * 2)"
proof -
  let ?f = "mk_fill ''BTC'' ''B'' 3 90 2"
  let ?g = "mk_fill ''BTC'' ''A'' 2 110 2"
  have h1: "to_float (f_sz ?f) = Inr 3" by (simp add: mk_fill_def to_float_def)
  have h2: "to_float (f_px ?f) = Inr 90" by (simp add: mk_fill_def to_float_def)
  have h3: "to_float (f_fee ?f) = Inr 0" by (simp add: mk_fill_def to_float_def)
  have h4: "get_coin ?f \<noteq> []" by (simp add: mk_fill_def get_coin_def)
  have h5: "(3::real) \<noteq> 0" by simp
  have h6: "\<not> is_opening (get_pos (positions short3) (get_coin ?f))
              (normalize_side (lower (get_side ?f)))"
    by (simp add: run_defs short3_def)
  obtain st1 where h7: "process_fill short3 ?f = Inr st1"
    by (simp add: run_defs short3_def)
  have ps: "get_pos (positions short3) (get_coin ?f) =
      \<lparr>entries = [\<lparr>e_timestamp = 1, e_price = 100, e_amount = 3, e_side = ''sell''\<rparr>],
       pos_side = Some Short, total_amount = 3, avg_entry = 100\<rparr>"
    by (simp add: short3_def get_pos_def mk_fill_def get_coin_def)
  from realized_pnl [OF h1 h2 h3 h4 h5 h6 h7 refl refl, of "Inr []" 0]
  have "\<exists>rt. round_trips st1 = round_trips short3 @ [rt] \<and>
     (pos_side (get_pos (positions short3) (get_coin ?f)) = Some Short \<longrightarrow>
      rt_pnl_usd rt = (avg_entry (get_pos (positions short3) (get_coin ?f)) - 90) *
         min 3 (total_amount (get_pos (positions short3) (get_coin ?f))))"
    by blast
  then have "\<exists>rt. round_trips st1 = [rt] \<and> rt_pnl_usd rt = (100 - 90) * 3"
    unfolding ps by (simp add: short3_def)
  with h7 have a: "\<exists>st' rt. process_fill short3 ?f = Inr st' \<and>
      round_trips st' = [rt] \<and> rt_pnl_usd rt = (100 - 90) * 3"
    by blast
  have g1: "to_float (f_sz ?g) = Inr 2" by (simp add: mk_fill_def to_float_def)
  have g2: "to_float (f_px ?g) = Inr 110" by (simp add: mk_fill_def to_float_def)
  have g3: "to_float (f_fee ?g) = Inr 0" by (simp add: mk_fill_def to_float_def)
  have g4: "get_coin ?g \<noteq> []" by (simp add: mk_fill_def get_coin_def)
  have g5: "(2::real) \<noteq> 0" by simp
  have g6: "\<not> is_opening (get_pos (positions long5) (get_coin ?g))
              (normalize_side (lower (get_side ?g)))"
    by (simp add: run_defs long5_def)
  obtain st2 where g7: "process_fill long5 ?g = Inr st2"
    by (simp add: run_defs long5_def)
  have pl: "get_pos (positions long5) (get_coin ?g) =
      \<lparr>entries = [\<lparr>e_timestamp = 1, e_price = 100, e_amount = 5, e_side = ''buy''\<rparr>],
       pos_side = Some Long, total_amount = 5, avg_entry = 100\<rparr>"
    by (simp add: long5_def get_pos_def mk_fill_def get_coin_def)
  from realized_pnl [OF g1 g2 g3 g4 g5 g6 g7 refl refl, of "Inr []" 0]
  have "\<exists>rt. round_trips st2 = round_trips long5 @ [rt] \<and>
     (pos_side (get_pos (positions long5) (get_coin ?g)) = Some Long \<longrightarrow>
      rt_pnl_usd rt = (110 - avg_entry (get_pos (positions long5) (get_coin ?g))) *
         min 2 (total_amount (get_pos (positions long5) (get_coin ?g))))"
    by blast
  then have "\<exists>rt. round_trips st2 = [rt] \<and> rt_pnl_usd rt = (110 - 100) * 2"
    unfolding pl by (simp add: long5_def)
  with g7 have b: "\<exists>st' rt. process_fill long5 ?g = Inr st' \<and>
      round_trips st' = [rt] \<and> rt_pnl_usd rt = (110 - 100) * 2"
    by blast
  from a b show ?thesis by blast
qed


subsection \<open>The opening branch\<close>

text \<open>
  C4, as stated, at a negative quantity. A buy of \<open>- 2\<close> at 100 on a flat position is an
  opening contribution; the stated average \<open>(avg * open_qty + price * qty) / (open_qty + qty)\<close>
  is 100, and the guard of line 98 stores 0.
\<close>

theorem opening_average_counterexample:
  "process_fill init_state (mk_fill ''BTC'' ''B'' (- 2) 100 1) =
     Inr \<lparr>positions = [''BTC'' \<mapsto>
            \<lparr>entries = [\<lparr>e_timestamp = 1, e_price = 100, e_amount = - 2, e_side = ''buy''\<rparr>],
             pos_side = Some Long, total_amount = - 2, avg_entry = 0\<rparr>],
          round_trips = []\<rparr> \<and>
   is_opening (get_pos (positions init_state) ''BTC'') ''buy'' \<and>
   (avg_entry (get_pos (positions init_state) ''BTC'') *
      total_amount (get_pos (positions init_state) ''BTC'') + 100 * (- 2)) /
     (total_amount (get_pos (positions init_state) ''BTC'') + (- 2)) = (100::real)"
  by (simp add: run_defs)

text \<open>
  C4, amended. An opening contribution leaves the round trips and the other instruments
  alone; the new average is the volume-weighted average when the new \<open>total_amount\<close> is
  positive and 0 otherwise; \<open>total_amount\<close> grows by the fill's quantity; the fill is
  appended to the entries; and a position whose \<open>total_amount\<close> was zero takes its side from
  the fill (long for a buy, short for anything else).
\<close>

theorem opening_contribution:
  assumes "to_float (f_sz f) = Inr amount" "to_float (f_px f) = Inr price"
    "to_float (f_fee f) = Inr fee0" "get_coin f \<noteq> []" "amount \<noteq> 0"
    "side = normalize_side (lower (get_side f))"
    "pos = get_pos (positions st) (get_coin f)"
    "is_opening pos side"
  shows "\<exists>st'. process_fill st f = Inr st' \<and> round_trips st' = round_trips st \<and>
     (\<forall>c. c \<noteq> get_coin f \<longrightarrow> positions st' c = positions st c) \<and>
     avg_entry (get_pos (positions st') (get_coin f)) =
       (if 0 < total_amount pos + amount
        then (avg_entry pos * total_amount pos + price * amount) / (total_amount pos + amount)
        else 0) \<and>
     total_amount (get_pos (positions st') (get_coin f)) = total_amount pos + amount \<and>
     entries (get_pos (positions st') (get_coin f)) =
       entries pos @ [\<lparr>e_timestamp = get_time f, e_price = price, e_amount = amount,
                       e_side = side\<rparr>] \<and>
     pos_side (get_pos (positions st') (get_coin f)) =
       (if total_amount pos = 0 then Some (if side = ''buy'' then Long else Short)
        else pos_side pos)"
proof -
  let ?st' = "st\<lparr>positions := (positions st)(get_coin f \<mapsto>
            open_fill pos side price amount (get_time f))\<rparr>"
  have op: "is_opening (get_pos (positions st) (get_coin f)) (normalize_side (lower (get_side f)))"
    using assms(6,7,8) by simp
  have run: "process_fill st f = Inr ?st'"
    unfolding assms(6,7) by (rule process_fill_open [OF assms(1-5) op])
  have g: "get_pos (positions ?st') (get_coin f) = open_fill pos side price amount (get_time f)"
    by (simp add: get_pos_def)
  have "round_trips ?st' = round_trips st" by simp
  moreover have "\<forall>c. c \<noteq> get_coin f \<longrightarrow> positions ?st' c = positions st c" by simp
  moreover have "avg_entry (get_pos (positions ?st') (get_coin f)) =
       (if 0 < total_amount pos + amount
        then (avg_entry pos * total_amount pos + price * amount) / (total_amount pos + amount)
        else 0)"
    unfolding g by (simp add: open_fill_def Let_def)
  moreover have "total_amount (get_pos (positions ?st') (get_coin f)) = total_amount pos + amount"
    unfolding g by (simp add: open_fill_def Let_def)
  moreover have "entries (get_pos (positions ?st') (get_coin f)) =
       entries pos @ [\<lparr>e_timestamp = get_time f, e_price = price, e_amount = amount,
                       e_side = side\<rparr>]"
    unfolding g by (rule open_fill_entries)
  moreover have "pos_side (get_pos (positions ?st') (get_coin f)) =
       (if total_amount pos = 0 then Some (if side = ''buy'' then Long else Short)
        else pos_side pos)"
    unfolding g by (simp add: open_fill_def Let_def)
  ultimately show ?thesis using run by blast
qed

theorem opening_contribution_witness:
  "\<exists>st'. process_fill long5 (mk_fill ''BTC'' ''B'' 3 120 2) = Inr st' \<and>
      avg_entry (get_pos (positions st') ''BTC'') = (100 * 5 + 120 * 3) / (5 + 3) \<and>
      total_amount (get_pos (positions st') ''BTC'') = 5 + 3 \<and>
      pos_side (get_pos (positions st') ''BTC'') = Some Long"
proof -
  let ?f = "mk_fill ''BTC'' ''B'' 3 120 2"
  have h1: "to_float (f_sz ?f) = Inr 3" by (simp add: mk_fill_def to_float_def)
  have h2: "to_float (f_px ?f) = Inr 120" by (simp add: mk_fill_def to_float_def)
  have h3: "to_float (f_fee ?f) = Inr 0" by (simp add: mk_fill_def to_float_def)
  have h4: "get_coin ?f \<noteq> []" by (simp add: mk_fill_def get_coin_def)
  have h5: "(3::real) \<noteq> 0" by simp
  have h8: "is_opening (get_pos (positions long5) (get_coin ?f))
              (normalize_side (lower (get_side ?f)))"
    by (simp add: run_defs long5_def)
  have c: "get_coin ?f = ''BTC''" by (simp add: mk_fill_def get_coin_def)
  have p: "get_pos (positions long5) ''BTC'' = \<lparr>entries = [\<lparr>e_timestamp = 1, e_price = 100, e_amount = 5, e_side = ''buy''\<rparr>],
       pos_side = Some Long, total_amount = 5, avg_entry = 100\<rparr>"
    by (simp add: long5_def get_pos_def)
  from opening_contribution [OF h1 h2 h3 h4 h5 refl refl h8]
  show ?thesis unfolding c p by auto
qed


subsection \<open>Side tokens outside the vocabulary\<close>

lemma unrecognized_side_kept:
  assumes "\<not> recognized s"
  shows "normalize_side s = s" "s \<noteq> ''buy''" "s \<noteq> ''sell''"
  using assms by (auto simp add: recognized_def normalize_side_def)

lemma unrecognized_is_opening:
  assumes "\<not> recognized s"
  shows "is_opening pos (normalize_side s) \<longleftrightarrow> total_amount pos = 0"
  unfolding unrecognized_side_kept(1) [OF assms] is_opening_def
  using unrecognized_side_kept(2,3) [OF assms] by simp

lemma close_fill_error:
  assumes "close_fill pos coin price amount ts fee = Inl e"
  shows "e = ZeroDivisionError \<or> e = AttributeError \<and> pos_side pos = None"
  using assms
  by (auto simp add: close_fill_def pnl_pct_of_def Let_def split: sum.splits if_splits)

text \<open>
  C2, as stated, at the token \<open>hold\<close>. On a flat position the fill opens a short position
  of its quantity; on a long position of 5 a fill of 2 emits a round trip of quantity 2 and
  leaves a position of 3.
\<close>

theorem unrecognized_side_counterexample:
  "\<not> recognized (lower ''hold'') \<and>
   process_fill init_state (mk_fill ''BTC'' ''hold'' 1 100 1) =
     Inr \<lparr>positions = [''BTC'' \<mapsto>
            \<lparr>entries = [\<lparr>e_timestamp = 1, e_price = 100, e_amount = 1, e_side = ''hold''\<rparr>],
             pos_side = Some Short, total_amount = 1, avg_entry = 100\<rparr>],
          round_trips = []\<rparr> \<and>
   process_fill long5 (mk_fill ''BTC'' ''hold'' 2 110 2) =
     Inr \<lparr>positions = [''BTC'' \<mapsto>
            \<lparr>entries = [\<lparr>e_timestamp = 1, e_price = 100, e_amount = 5, e_side = ''buy''\<rparr>],
             pos_side = Some Long, total_amount = 3, avg_entry = 100\<rparr>],
          round_trips = [\<lparr>rt_symbol = ''BTC'', rt_side = Some Long, rt_entry_price = 100,
            rt_exit_price = 110, rt_quantity = 2, rt_pnl_usd = 20, rt_pnl_pct = 10,
            rt_entry_time = 1, rt_exit_time = 2, rt_fee = 0\<rparr>]\<rparr>"
  by (simp add: run_defs long5_def recognized_def)

text \<open>
  C2, amended. A fill whose lowercased side token is outside the vocabulary, with a
  non-empty instrument and a non-zero quantity, is an opening contribution when the
  position's \<open>total_amount\<close> is zero (it creates a short position of the fill's quantity and
  is appended to the entries), and a closing contribution otherwise: unless the iteration
  raises (the percentage divides by zero, or the position has no side), it emits one round
  trip of quantity \<open>min amount total_amount\<close> and reduces \<open>total_amount\<close> by as much.
\<close>

theorem unrecognized_side:
  assumes "\<not> recognized (lower (get_side f))"
    "to_float (f_sz f) = Inr amount" "to_float (f_px f) = Inr price"
    "to_float (f_fee f) = Inr fee0" "get_coin f \<noteq> []" "amount \<noteq> 0"
    "pos = get_pos (positions st) (get_coin f)"
  shows "(total_amount pos = 0 \<longrightarrow>
      (\<exists>st'. process_fill st f = Inr st' \<and> round_trips st' = round_trips st \<and>
         pos_side (get_pos (positions st') (get_coin f)) = Some Short \<and>
         total_amount (get_pos (positions st') (get_coin f)) = amount \<and>
         entries (get_pos (positions st') (get_coin f)) =
           entries pos @ [\<lparr>e_timestamp = get_time f, e_price = price, e_amount = amount,
                           e_side = lower (get_side f)\<rparr>])) \<and>
    (total_amount pos \<noteq> 0 \<longrightarrow>
      process_fill st f = Inl ZeroDivisionError \<or>
      process_fill st f = Inl AttributeError \<and> pos_side pos = None \<or>
      (\<exists>st' rt. process_fill st f = Inr st' \<and> round_trips st' = round_trips st @ [rt] \<and>
         rt_quantity rt = min amount (total_amount pos) \<and>
         total_amount (get_pos (positions st') (get_coin f)) =
           total_amount pos - min amount (total_amount pos)))"
proof (intro conjI impI)
  let ?side = "normalize_side (lower (get_side f))"
  note keep = unrecognized_side_kept [OF assms(1)]
  assume flat: "total_amount pos = 0"
  then have op: "is_opening (get_pos (positions st) (get_coin f)) ?side"
    using unrecognized_is_opening [OF assms(1), of pos] assms(7) by simp
  let ?st' = "st\<lparr>positions := (positions st)(get_coin f \<mapsto>
            open_fill pos ?side price amount (get_time f))\<rparr>"
  have run: "process_fill st f = Inr ?st'"
    unfolding assms(7) by (rule process_fill_open [OF assms(2-6) op])
  have g: "get_pos (positions ?st') (get_coin f) = open_fill pos ?side price amount (get_time f)"
    by (simp add: get_pos_def)
  have "round_trips ?st' = round_trips st" by simp
  moreover have "pos_side (get_pos (positions ?st') (get_coin f)) = Some Short"
    unfolding g using flat keep by (simp add: open_fill_def Let_def)
  moreover have "total_amount (get_pos (positions ?st') (get_coin f)) = amount"
    unfolding g using flat by (simp add: open_fill_def Let_def)
  moreover have "entries (get_pos (positions ?st') (get_coin f)) =
           entries pos @ [\<lparr>e_timestamp = get_time f, e_price = price, e_amount = amount,
                           e_side = lower (get_side f)\<rparr>]"
    using g by (simp add: open_fill_entries keep(1) get_pos_def)
  ultimately show "\<exists>st'. process_fill st f = Inr st' \<and> round_trips st' = round_trips st \<and>
         pos_side (get_pos (positions st') (get_coin f)) = Some Short \<and>
         total_amount (get_pos (positions st') (get_coin f)) = amount \<and>
         entries (get_pos (positions st') (get_coin f)) =
           entries pos @ [\<lparr>e_timestamp = get_time f, e_price = price, e_amount = amount,
                           e_side = lower (get_side f)\<rparr>]"
    using run by blast
next
  let ?side = "normalize_side (lower (get_side f))"
  assume open_pos: "total_amount pos \<noteq> 0"
  then have cl: "\<not> is_opening (get_pos (positions st) (get_coin f)) ?side"
    using unrecognized_is_opening [OF assms(1), of pos] assms(7) by simp
  show "process_fill st f = Inl ZeroDivisionError \<or>
      process_fill st f = Inl AttributeError \<and> pos_side pos = None \<or>
      (\<exists>st' rt. process_fill st f = Inr st' \<and> round_trips st' = round_trips st @ [rt] \<and>
         rt_quantity rt = min amount (total_amount pos) \<and>
         total_amount (get_pos (positions st') (get_coin f)) =
           total_amount pos - min amount (total_amount pos))"
  proof (cases "close_fill pos (get_coin f) price amount (get_time f) \<bar>fee0\<bar>")
    case (Inl e)
    then have "e = ZeroDivisionError \<or> e = AttributeError \<and> pos_side pos = None"
      by (rule close_fill_error)
    with Inl process_fill_close [OF assms(2-6) cl] show ?thesis
      unfolding assms(7) by auto
  next
    case (Inr p)
    obtain rt pos' where p: "p = (rt, pos')" by (cases p)
    let ?st' = "\<lparr>positions = (positions st)(get_coin f \<mapsto> pos'),
               round_trips = round_trips st @ [rt]\<rparr>"
    have cf: "close_fill pos (get_coin f) price amount (get_time f) \<bar>fee0\<bar> = Inr (rt, pos')"
      using Inr p by simp
    have run: "process_fill st f = Inr ?st'"
      using process_fill_close [OF assms(2-6) cl] cf unfolding assms(7) by simp
    have "round_trips ?st' = round_trips st @ [rt]" by simp
    moreover have "rt_quantity rt = min amount (total_amount pos)"
      by (rule close_fill_Inr(5) [OF cf])
    moreover have "total_amount (get_pos (positions ?st') (get_coin f)) =
           total_amount pos - min amount (total_amount pos)"
      using close_fill_new_total [OF cf] by (simp add: get_pos_def)
    ultimately show ?thesis using run by blast
  qed
qed

theorem unrecognized_side_witness:
  "(\<exists>st'. process_fill init_state (mk_fill ''BTC'' ''hold'' 1 100 1) = Inr st' \<and>
      pos_side (get_pos (positions st') ''BTC'') = Some Short \<and>
      total_amount (get_pos (positions st') ''BTC'') = 1) \<and>
   (\<exists>st' rt. process_fill long5 (mk_fill ''BTC'' ''hold'' 2 110 2) = Inr st' \<and>
      round_trips st' = [rt] \<and> rt_quantity rt = 2 \<and>
      total_amount (get_pos (positions st') ''BTC'') = 3)"
proof -
  let ?f = "mk_fill ''BTC'' ''hold'' 1 100 1"
  let ?g = "mk_fill ''BTC'' ''hold'' 2 110 2"
  have f0: "\<not> recognized (lower (get_side ?f))"
    by (simp add: run_defs recognized_def)
  have f1: "to_float (f_sz ?f) = Inr 1" by (simp add: mk_fill_def to_float_def)
  have f2: "to_float (f_px ?f) = Inr 100" by (simp add: mk_fill_def to_float_def)
  have f3: "to_float (f_fee ?f) = Inr 0" by (simp add: mk_fill_def to_float_def)
  have f4: "get_coin ?f \<noteq> []" by (simp add: mk_fill_def get_coin_def)
  have f5: "(1::real) \<noteq> 0" by simp
  have cf: "get_coin ?f = ''BTC''" by (simp add: mk_fill_def get_coin_def)
  have pf: "total_amount (get_pos (positions init_state) ''BTC'') = 0"
    by (simp add: init_state_def get_pos_def flat_pos_def)
  have g0: "\<not> recognized (lower (get_side ?g))"
    by (simp add: run_defs recognized_def)
  have g1: "to_float (f_sz ?g) = Inr 2" by (simp add: mk_fill_def to_float_def)
  have g2: "to_float (f_px ?g) = Inr 110" by (simp add: mk_fill_def to_float_def)
  have g4: "get_coin ?g \<noteq> []" by (simp add: mk_fill_def get_coin_def)
  have g3: "to_float (f_fee ?g) = Inr 0" by (simp add: mk_fill_def to_float_def)
  have g5: "(2::real) \<noteq> 0" by simp
  have cg: "get_coin ?g = ''BTC''" by (simp add: mk_fill_def get_coin_def)
  have pg: "total_amount (get_pos (positions long5) ''BTC'') = 5"
    by (simp add: long5_def get_pos_def)
  have ng: "process_fill long5 ?g \<noteq> Inl ZeroDivisionError"
    by (simp add: run_defs long5_def)
  have rg: "round_trips long5 = []" by (simp add: long5_def)
  have sg: "pos_side (get_pos (positions long5) ''BTC'') \<noteq> None"
    by (simp add: long5_def get_pos_def)
  from unrecognized_side [OF f0 f1 f2 f3 f4 f5 refl, of init_state] pf
  have a: "\<exists>st'. process_fill init_state ?f = Inr st' \<and>
      pos_side (get_pos (positions st') ''BTC'') = Some Short \<and>
      total_amount (get_pos (positions st') ''BTC'') = 1"
    unfolding cf by auto
  from unrecognized_side [OF g0 g1 g2 g3 g4 g5 refl, of long5] pg ng sg
  have b: "\<exists>st' rt. process_fill long5 ?g = Inr st' \<and>
      round_trips st' = [rt] \<and> rt_quantity rt = 2 \<and>
      total_amount (get_pos (positions st') ''BTC'') = 3"
    unfolding cg rg by auto
  from a b show ?thesis by blast
qed


subsection \<open>Division by zero in the percentage\<close>

lemma match_fills_append:
  "match_fills st (xs @ ys) =
     (case match_fills st xs of Inl e \<Rightarrow> Inl e | Inr st' \<Rightarrow> match_fills st' ys)"
  by (induction xs arbitrary: st) (auto split: sum.splits)

lemma close_fill_raises:
  assumes "(pos_side pos = Some Long \<and> avg_entry pos = 0) \<or>
           (pos_side pos \<noteq> Some Long \<and> price = 0)"
  shows "close_fill pos coin price amount ts fee = Inl ZeroDivisionError"
  using assms by (auto simp add: close_fill_def pnl_pct_of_def Let_def)

text \<open>
  C1, as stated, on six fills. The fourth closes a long position opened at price 0. The
  function returns no round trip at all, although the first two fills make a round trip
  before the division is reached, and the same stream without the fourth fill returns
  that round trip and the one of the last two fills.
\<close>

theorem division_by_zero_counterexample:
  "get_hl_closed_trades
     (Inr [mk_fill ''BTC'' ''B'' 1 100 1, mk_fill ''BTC'' ''A'' 1 110 2,
           mk_fill ''ETH'' ''B'' 1 0 3, mk_fill ''ETH'' ''A'' 1 5 4,
           mk_fill ''SOL'' ''B'' 2 10 5, mk_fill ''SOL'' ''A'' 2 11 6]) 0 = [] \<and>
   match_fills init_state
     (sorted_recent [mk_fill ''BTC'' ''B'' 1 100 1, mk_fill ''BTC'' ''A'' 1 110 2,
           mk_fill ''ETH'' ''B'' 1 0 3] 0) =
     Inr \<lparr>positions = [''BTC'' \<mapsto> flat_pos, ''ETH'' \<mapsto>
             \<lparr>entries = [\<lparr>e_timestamp = 3, e_price = 0, e_amount = 1, e_side = ''buy''\<rparr>],
              pos_side = Some Long, total_amount = 1, avg_entry = 0\<rparr>],
          round_trips = [\<lparr>rt_symbol = ''BTC'', rt_side = Some Long, rt_entry_price = 100,
            rt_exit_price = 110, rt_quantity = 1, rt_pnl_usd = 10, rt_pnl_pct = 10,
            rt_entry_time = 1, rt_exit_time = 2, rt_fee = 0\<rparr>]\<rparr> \<and>
   get_hl_closed_trades
     (Inr [mk_fill ''BTC'' ''B'' 1 100 1, mk_fill ''BTC'' ''A'' 1 110 2,
           mk_fill ''ETH'' ''B'' 1 0 3,
           mk_fill ''SOL'' ''B'' 2 10 5, mk_fill ''SOL'' ''A'' 2 11 6]) 0 =
     [\<lparr>rt_symbol = ''BTC'', rt_side = Some Long, rt_entry_price = 100,
        rt_exit_price = 110, rt_quantity = 1, rt_pnl_usd = 10, rt_pnl_pct = 10,
        rt_entry_time = 1, rt_exit_time = 2, rt_fee = 0\<rparr>,
      \<lparr>rt_symbol = ''SOL'', rt_side = Some Long, rt_entry_price = 10,
        rt_exit_price = 11, rt_quantity = 2, rt_pnl_usd = 2, rt_pnl_pct = 10,
        rt_entry_time = 5, rt_exit_time = 6, rt_fee = 0\<rparr>]"
  by (simp add: run_defs)

text \<open>
  C1, amended. When the sorted fills of the window reach a closing fill whose percentage
  divides by zero (a long position with average entry 0, or any other position closed at
  price 0), the iteration raises, the loop stops there, and the handler of line 130 makes
  the function return the empty list: no round trip of the stream is returned, and the
  function still returns.
\<close>

theorem division_by_zero_empties_result:
  assumes "sorted_recent all_fills since_ts = pre @ f # post"
    "match_fills init_state pre = Inr st"
    "to_float (f_sz f) = Inr amount" "to_float (f_px f) = Inr price"
    "to_float (f_fee f) = Inr fee0" "get_coin f \<noteq> []" "amount \<noteq> 0"
    "pos = get_pos (positions st) (get_coin f)"
    "\<not> is_opening pos (normalize_side (lower (get_side f)))"
    "(pos_side pos = Some Long \<and> avg_entry pos = 0) \<or>
     (pos_side pos \<noteq> Some Long \<and> price = 0)"
  shows "process_fill st f = Inl ZeroDivisionError \<and>
    match_fills init_state (sorted_recent all_fills since_ts) = Inl ZeroDivisionError \<and>
    get_hl_closed_trades (Inr all_fills) since_ts = []"
proof -
  have cl: "\<not> is_opening (get_pos (positions st) (get_coin f))
              (normalize_side (lower (get_side f)))"
    using assms(8,9) by simp
  have step: "process_fill st f = Inl ZeroDivisionError"
    using process_fill_close [OF assms(3-7) cl]
      close_fill_raises [OF assms(10), of "get_coin f" amount "get_time f" "\<bar>fee0\<bar>"]
    unfolding assms(8) by simp
  have "match_fills init_state (pre @ f # post) = match_fills st (f # post)"
    using assms(2) by (simp add: match_fills_append)
  also have "\<dots> = Inl ZeroDivisionError" using step by simp
  finally have run: "match_fills init_state (sorted_recent all_fills since_ts) =
      Inl ZeroDivisionError"
    unfolding assms(1) .
  then have "get_hl_closed_trades (Inr all_fills) since_ts = []"
    by (simp add: get_hl_closed_trades_def)
  with step run show ?thesis by simp
qed

theorem division_by_zero_empties_result_witness:
  "get_hl_closed_trades
     (Inr [mk_fill ''ETH'' ''A'' 1 5 4, mk_fill ''BTC'' ''B'' 1 100 1,
           mk_fill ''ETH'' ''B'' 1 0 3, mk_fill ''BTC'' ''A'' 1 110 2]) 0 = []"
proof -
  let ?all = "[mk_fill ''ETH'' ''A'' 1 5 4, mk_fill ''BTC'' ''B'' 1 100 1,
           mk_fill ''ETH'' ''B'' 1 0 3, mk_fill ''BTC'' ''A'' 1 110 2]"
  let ?pre = "[mk_fill ''BTC'' ''B'' 1 100 1, mk_fill ''BTC'' ''A'' 1 110 2,
           mk_fill ''ETH'' ''B'' 1 0 3]"
  let ?f = "mk_fill ''ETH'' ''A'' 1 5 4"
  let ?st = "\<lparr>positions = [''BTC'' \<mapsto> flat_pos, ''ETH'' \<mapsto>
             \<lparr>entries = [\<lparr>e_timestamp = 3, e_price = 0, e_amount = 1, e_side = ''buy''\<rparr>],
              pos_side = Some Long, total_amount = 1, avg_entry = 0\<rparr>],
          round_trips = [\<lparr>rt_symbol = ''BTC'', rt_side = Some Long, rt_entry_price = 100,
            rt_exit_price = 110, rt_quantity = 1, rt_pnl_usd = 10, rt_pnl_pct = 10,
            rt_entry_time = 1, rt_exit_time = 2, rt_fee = 0\<rparr>]\<rparr>"
  have h1: "sorted_recent ?all 0 = ?pre @ ?f # []"
    by (simp add: sorted_recent_def mk_fill_def get_time_def)
  have h2: "match_fills init_state ?pre = Inr ?st"
    by (simp add: run_defs)
  have h3: "to_float (f_sz ?f) = Inr 1" by (simp add: mk_fill_def to_float_def)
  have h4: "to_float (f_px ?f) = Inr 5" by (simp add: mk_fill_def to_float_def)
  have h5: "to_float (f_fee ?f) = Inr 0" by (simp add: mk_fill_def to_float_def)
  have h6: "get_coin ?f \<noteq> []" by (simp add: mk_fill_def get_coin_def)
  have h7: "(1::real) \<noteq> 0" by simp
  have h9: "\<not> is_opening (get_pos (positions ?st) (get_coin ?f))
              (normalize_side (lower (get_side ?f)))"
    by (simp add: run_defs)
  have h10: "(pos_side (get_pos (positions ?st) (get_coin ?f)) = Some Long \<and>
       avg_entry (get_pos (positions ?st) (get_coin ?f)) = 0) \<or>
     (pos_side (get_pos (positions ?st) (get_coin ?f)) \<noteq> Some Long \<and> (5::real) = 0)"
    by (simp add: run_defs)
  from division_by_zero_empties_result [OF h1 h2 h3 h4 h5 h6 h7 refl h9 h10]
  show ?thesis by simp
qed


subsection \<open>The entry time of a round trip\<close>

lemma entries_ok_mono: "entries_ok b pos \<Longrightarrow> b \<le> t \<Longrightarrow> entries_ok t pos"
  by (fastforce simp add: entries_ok_def)

lemma positions_ok_mono: "positions_ok b st \<Longrightarrow> b \<le> t \<Longrightarrow> positions_ok t st"
  unfolding positions_ok_def using entries_ok_mono by blast

lemma entries_ok_flat: "entries_ok b flat_pos"
  by (simp add: entries_ok_def flat_pos_def)

lemma positions_ok_init: "positions_ok b init_state"
  by (simp add: positions_ok_def init_state_def)

lemma positions_ok_get_pos: "positions_ok b st \<Longrightarrow> entries_ok b (get_pos (positions st) c)"
  by (auto simp add: positions_ok_def get_pos_def entries_ok_flat split: option.splits)

lemma positions_ok_upd:
  assumes "positions_ok b st" "entries_ok b p" "positions st' = (positions st)(c \<mapsto> p)"
  shows "positions_ok b st'"
  using assms by (auto simp add: positions_ok_def)

lemma entries_ok_open:
  assumes "entries_ok b pos" "b \<le> t"
  shows "entries_ok t (open_fill pos side price amount t)"
proof -
  have "sorted (map e_timestamp (entries pos) @ [t])"
    using assms by (auto simp add: entries_ok_def sorted_append)
  moreover have "\<forall>e \<in> set (entries pos). e_timestamp e \<le> t"
    using assms by (auto simp add: entries_ok_def)
  ultimately show ?thesis
    by (simp add: entries_ok_def open_fill_entries)
qed

lemma entries_ok_close:
  assumes "entries_ok b pos" "close_fill pos coin price amount ts fee = Inr (rt, pos')"
    "total_amount pos \<noteq> 0"
  shows "entries_ok b pos'"
proof (cases "total_amount pos - min amount (total_amount pos) \<le> 0")
  case True
  then have "pos' = flat_pos" using close_fill_Inr(10) [OF assms(2)] by simp
  then show ?thesis by (simp add: entries_ok_flat)
next
  case False
  then have p: "pos' = pos\<lparr>total_amount := total_amount pos - min amount (total_amount pos)\<rparr>"
    using close_fill_Inr(10) [OF assms(2)] by simp
  from assms(1,3) show ?thesis unfolding p by (simp add: entries_ok_def)
qed

lemma process_fill_cases:
  assumes "process_fill st f = Inr st'"
  shows "st' = st \<or>
    (\<exists>amount price.
        is_opening (get_pos (positions st) (get_coin f)) (normalize_side (lower (get_side f))) \<and>
        positions st' = (positions st)(get_coin f \<mapsto>
          open_fill (get_pos (positions st) (get_coin f))
            (normalize_side (lower (get_side f))) price amount (get_time f)) \<and>
        round_trips st' = round_trips st) \<or>
    (\<exists>amount price fee rt pos'.
        \<not> is_opening (get_pos (positions st) (get_coin f)) (normalize_side (lower (get_side f))) \<and>
        close_fill (get_pos (positions st) (get_coin f)) (get_coin f) price amount
          (get_time f) fee = Inr (rt, pos') \<and>
        positions st' = (positions st)(get_coin f \<mapsto> pos') \<and>
        round_trips st' = round_trips st @ [rt])"
proof -
  from assms obtain amount price fee0 where
    p: "to_float (f_sz f) = Inr amount" "to_float (f_px f) = Inr price"
       "to_float (f_fee f) = Inr fee0"
    by (auto simp add: process_fill_def Let_def split: sum.splits)
  show ?thesis
  proof (cases "get_coin f = [] \<or> amount = 0")
    case True
    from process_fill_discard [OF p True] assms show ?thesis by simp
  next
    case False
    then have ne: "get_coin f \<noteq> []" "amount \<noteq> 0" by simp_all
    show ?thesis
    proof (cases "is_opening (get_pos (positions st) (get_coin f))
                    (normalize_side (lower (get_side f)))")
      case True
      from process_fill_open [OF p ne True] assms
      have "st' = st\<lparr>positions := (positions st)(get_coin f \<mapsto>
            open_fill (get_pos (positions st) (get_coin f))
              (normalize_side (lower (get_side f))) price amount (get_time f))\<rparr>"
        by simp
      then have "positions st' = (positions st)(get_coin f \<mapsto>
            open_fill (get_pos (positions st) (get_coin f))
              (normalize_side (lower (get_side f))) price amount (get_time f))"
        "round_trips st' = round_trips st" by simp_all
      with True show ?thesis by blast
    next
      case False
      from process_fill_close_result [OF p ne False assms] False show ?thesis by blast
    qed
  qed
qed

lemma process_fill_positions_ok:
  assumes "positions_ok b st" "b \<le> get_time f" "process_fill st f = Inr st'"
  shows "positions_ok (get_time f) st'"
proof -
  have ok: "positions_ok (get_time f) st" by (rule positions_ok_mono [OF assms(1,2)])
  from process_fill_cases [OF assms(3)] show ?thesis
  proof (elim disjE exE conjE)
    assume "st' = st"
    with ok show ?thesis by simp
  next
    fix amount price
    assume ps: "positions st' = (positions st)(get_coin f \<mapsto>
          open_fill (get_pos (positions st) (get_coin f))
            (normalize_side (lower (get_side f))) price amount (get_time f))"
    have "entries_ok (get_time f) (open_fill (get_pos (positions st) (get_coin f))
            (normalize_side (lower (get_side f))) price amount (get_time f))"
      by (rule entries_ok_open [OF positions_ok_get_pos [OF assms(1)] assms(2)])
    from positions_ok_upd [OF ok this ps] show ?thesis .
  next
    fix amount price fee rt pos'
    assume cl: "\<not> is_opening (get_pos (positions st) (get_coin f))
                  (normalize_side (lower (get_side f)))"
      and cf: "close_fill (get_pos (positions st) (get_coin f)) (get_coin f) price amount
          (get_time f) fee = Inr (rt, pos')"
      and ps: "positions st' = (positions st)(get_coin f \<mapsto> pos')"
    from cl have nz: "total_amount (get_pos (positions st) (get_coin f)) \<noteq> 0"
      by (auto simp add: is_opening_def)
    have "entries_ok (get_time f) pos'"
      by (rule entries_ok_close [OF positions_ok_get_pos [OF ok] cf nz])
    from positions_ok_upd [OF ok this ps] show ?thesis .
  qed
qed

lemma match_fills_positions_ok:
  "sorted (map get_time fs) \<Longrightarrow> \<forall>g \<in> set fs. b \<le> get_time g \<Longrightarrow> positions_ok b st \<Longrightarrow>
   match_fills st fs = Inr st' \<Longrightarrow> \<forall>g \<in> set fs. get_time g \<le> t \<Longrightarrow> b \<le> t \<Longrightarrow>
   positions_ok t st'"
proof (induction fs arbitrary: b st)
  case Nil
  then show ?case using positions_ok_mono by simp
next
  case (Cons f fs)
  from Cons.prems(4) obtain st1 where s1: "process_fill st f = Inr st1"
    and rest: "match_fills st1 fs = Inr st'"
    by (auto split: sum.splits)
  have bf: "b \<le> get_time f" using Cons.prems(2) by simp
  have ok1: "positions_ok (get_time f) st1"
    by (rule process_fill_positions_ok [OF Cons.prems(3) bf s1])
  have srt: "sorted (map get_time fs)" and lower: "\<forall>g \<in> set fs. get_time f \<le> get_time g"
    using Cons.prems(1) by simp_all
  have upper: "\<forall>g \<in> set fs. get_time g \<le> t" and ft: "get_time f \<le> t"
    using Cons.prems(5) by simp_all
  from Cons.IH [OF srt lower ok1 rest upper ft] show ?case .
qed

lemma sorted_recent_sorted: "sorted (map get_time (sorted_recent all_fills since_ts))"
  by (simp add: sorted_recent_def)

lemma prefix_positions_ok:
  assumes "sorted_recent all_fills since_ts = pre @ f # post"
    "match_fills init_state pre = Inr st"
  shows "positions_ok (get_time f) st"
proof -
  have s: "sorted (map get_time (pre @ f # post))"
    using sorted_recent_sorted [of all_fills since_ts] unfolding assms(1) .
  then have sp: "sorted (map get_time pre)" and up: "\<forall>g \<in> set pre. get_time g \<le> get_time f"
    by (auto simp add: sorted_append)
  define b where "b = Min (insert (get_time f) (get_time ` set pre))"
  have lo: "\<forall>g \<in> set pre. b \<le> get_time g" and bf: "b \<le> get_time f"
    unfolding b_def by simp_all
  from match_fills_positions_ok [OF sp lo positions_ok_init assms(2) up bf] show ?thesis .
qed

lemma sorted_hd_Min:
  assumes "sorted xs" "xs \<noteq> []"
  shows "hd xs = Min (set xs)"
proof -
  obtain x ys where xs: "xs = x # ys" using assms(2) by (cases xs) auto
  with assms(1) have "\<forall>y \<in> set ys. x \<le> y" by simp
  then have "Min (set (x # ys)) = x"
    by (intro Min_eqI) auto
  with xs show ?thesis by simp
qed

lemma flat_when_zero_get_pos:
  "all_flat_when_zero st \<Longrightarrow> flat_when_zero (get_pos (positions st) c)"
  by (auto simp add: all_flat_when_zero_def get_pos_def flat_when_zero_def flat_pos_def
      split: option.splits)

lemma flat_when_zero_open:
  assumes "flat_when_zero pos" "0 < amount"
  shows "flat_when_zero (open_fill pos side price amount ts)"
  using assms by (simp add: flat_when_zero_def open_fill_def Let_def)

lemma flat_when_zero_close:
  assumes "close_fill pos coin price amount ts fee = Inr (rt, pos')"
  shows "flat_when_zero pos'"
  unfolding close_fill_Inr(10) [OF assms]
  by (simp add: flat_when_zero_def flat_pos_def)

lemma process_fill_amount:
  assumes "process_fill st f = Inr st'" "st' \<noteq> st"
  shows "to_float (f_sz f) = Inr (amount_of f) \<and> amount_of f \<noteq> 0"
  using assms
  by (auto simp add: process_fill_def amount_of_def Let_def split: sum.splits if_splits)

lemma process_fill_flat_when_zero:
  assumes "all_flat_when_zero st" "0 \<le> amount_of f" "process_fill st f = Inr st'"
  shows "all_flat_when_zero st'"
proof (cases "st' = st")
  case True
  with assms(1) show ?thesis by simp
next
  case False
  from process_fill_amount [OF assms(3) False] assms(2)
  have sz: "to_float (f_sz f) = Inr (amount_of f)" and pos: "0 < amount_of f" by simp_all
  from assms(3) obtain price fee0 where
    px: "to_float (f_px f) = Inr price" and fe: "to_float (f_fee f) = Inr fee0"
    by (auto simp add: process_fill_def Let_def split: sum.splits)
  have ne: "get_coin f \<noteq> []" "amount_of f \<noteq> 0"
    using assms(3) False sz pos
    by (auto simp add: process_fill_def Let_def split: sum.splits if_splits)
  let ?pos = "get_pos (positions st) (get_coin f)"
  let ?side = "normalize_side (lower (get_side f))"
  have "\<exists>p. flat_when_zero p \<and> positions st' = (positions st)(get_coin f \<mapsto> p)"
  proof (cases "is_opening ?pos ?side")
    case True
    from process_fill_open [OF sz px fe ne True] assms(3)
    have "positions st' = (positions st)(get_coin f \<mapsto>
        open_fill ?pos ?side price (amount_of f) (get_time f))"
      by auto
    moreover have "flat_when_zero (open_fill ?pos ?side price (amount_of f) (get_time f))"
      by (rule flat_when_zero_open [OF flat_when_zero_get_pos [OF assms(1)] pos])
    ultimately show ?thesis by blast
  next
    case False
    from process_fill_close_result [OF sz px fe ne False assms(3)]
    obtain rt p where "close_fill ?pos (get_coin f) price (amount_of f) (get_time f) \<bar>fee0\<bar>
        = Inr (rt, p)" "positions st' = (positions st)(get_coin f \<mapsto> p)"
      by blast
    then show ?thesis using flat_when_zero_close by blast
  qed
  then show ?thesis using assms(1)
    by (auto simp add: all_flat_when_zero_def split: if_splits)
qed

lemma match_fills_flat_when_zero:
  "all_flat_when_zero st \<Longrightarrow> \<forall>g \<in> set fs. 0 \<le> amount_of g \<Longrightarrow>
   match_fills st fs = Inr st' \<Longrightarrow> all_flat_when_zero st'"
proof (induction fs arbitrary: st)
  case Nil
  then show ?case by simp
next
  case (Cons f fs)
  from Cons.prems(3) obtain st1 where s1: "process_fill st f = Inr st1"
    and rest: "match_fills st1 fs = Inr st'"
    by (auto split: sum.splits)
  have "all_flat_when_zero st1"
    using process_fill_flat_when_zero [OF Cons.prems(1) _ s1] Cons.prems(2) by simp
  from Cons.IH [OF this _ rest] Cons.prems(2) show ?case by simp
qed

lemma set_sorted_recent: "set (sorted_recent all_fills since_ts) \<subseteq> set all_fills"
  by (auto simp add: sorted_recent_def)

lemma prefix_flat_when_zero:
  assumes "sorted_recent all_fills since_ts = pre @ f # post"
    "match_fills init_state pre = Inr st"
    "\<forall>g \<in> set all_fills. 0 \<le> amount_of g"
  shows "all_flat_when_zero st"
proof -
  have "set pre \<subseteq> set all_fills"
    using set_sorted_recent [of all_fills since_ts] unfolding assms(1) by auto
  with assms(3) have "\<forall>g \<in> set pre. 0 \<le> amount_of g" by blast
  moreover have "all_flat_when_zero init_state"
    by (simp add: all_flat_when_zero_def init_state_def)
  ultimately show ?thesis using match_fills_flat_when_zero assms(2) by blast
qed

text \<open>
  C8, as stated, at a negative quantity. A buy of \<open>- 2\<close> at time 1 and a buy of 2 at time 2
  leave the position with \<open>total_amount\<close> 0, so flat, and with both entries still recorded:
  only a close clears them. The sell at time 3 is then the only entry recorded since the
  position was last flat, and the round trip that the buy at time 4 emits has entry time
  1, not 3.
\<close>

theorem entry_time_counterexample:
  "match_fills init_state
     (sorted_recent [mk_fill ''BTC'' ''B'' (- 2) 100 1, mk_fill ''BTC'' ''B'' 2 50 2] 0) =
     Inr \<lparr>positions = [''BTC'' \<mapsto>
            \<lparr>entries = [\<lparr>e_timestamp = 1, e_price = 100, e_amount = - 2, e_side = ''buy''\<rparr>,
                        \<lparr>e_timestamp = 2, e_price = 50, e_amount = 2, e_side = ''buy''\<rparr>],
             pos_side = Some Long, total_amount = 0, avg_entry = 0\<rparr>],
          round_trips = []\<rparr> \<and>
   match_fills init_state
     (sorted_recent [mk_fill ''BTC'' ''B'' (- 2) 100 1, mk_fill ''BTC'' ''B'' 2 50 2,
                     mk_fill ''BTC'' ''A'' 1 80 3] 0) =
     Inr \<lparr>positions = [''BTC'' \<mapsto>
            \<lparr>entries = [\<lparr>e_timestamp = 1, e_price = 100, e_amount = - 2, e_side = ''buy''\<rparr>,
                        \<lparr>e_timestamp = 2, e_price = 50, e_amount = 2, e_side = ''buy''\<rparr>,
                        \<lparr>e_timestamp = 3, e_price = 80, e_amount = 1, e_side = ''sell''\<rparr>],
             pos_side = Some Short, total_amount = 1, avg_entry = 80\<rparr>],
          round_trips = []\<rparr> \<and>
   get_hl_closed_trades
     (Inr [mk_fill ''BTC'' ''B'' (- 2) 100 1, mk_fill ''BTC'' ''B'' 2 50 2,
           mk_fill ''BTC'' ''A'' 1 80 3, mk_fill ''BTC'' ''B'' 1 70 4]) 0 =
     [\<lparr>rt_symbol = ''BTC'', rt_side = Some Short, rt_entry_price = 80,
        rt_exit_price = 70, rt_quantity = 1, rt_pnl_usd = 10, rt_pnl_pct = (80 / 70 - 1) * 100,
        rt_entry_time = 1, rt_exit_time = 4, rt_fee = 0\<rparr>]"
  by (simp add: run_defs)

text \<open>
  C8, amended. Whenever a fill of the sorted stream emits a round trip, the position has
  entries, the round trip's \<open>entry_time\<close> is the time of the first of them, which is the
  earliest time among the entries recorded since a close last cleared them, and it is not
  later than the exit time. A close that does not reset the position keeps its entries, so
  the next round trip has the same entry time. When no fill of the stream has a negative
  quantity, a position has no entries exactly when its \<open>total_amount\<close> is zero, so the
  entries are then those recorded since the position was last flat.
\<close>

theorem entry_time_earliest:
  assumes "sorted_recent all_fills since_ts = pre @ f # post"
    "match_fills init_state pre = Inr st"
    "process_fill st f = Inr st'"
    "round_trips st' = round_trips st @ [rt]"
    "pos = get_pos (positions st) (get_coin f)"
    "pos' = get_pos (positions st') (get_coin f)"
  shows "entries pos \<noteq> [] \<and>
    rt_entry_time rt = e_timestamp (hd (entries pos)) \<and>
    rt_entry_time rt = Min (e_timestamp ` set (entries pos)) \<and>
    rt_entry_time rt \<le> rt_exit_time rt \<and>
    (pos' \<noteq> flat_pos \<longrightarrow> entries pos' = entries pos) \<and>
    ((\<forall>g \<in> set all_fills. 0 \<le> amount_of g) \<longrightarrow>
       (\<forall>c p. positions st c = Some p \<longrightarrow> (total_amount p = 0 \<longleftrightarrow> entries p = [])))"
proof -
  have ok: "entries_ok (get_time f) pos"
    unfolding assms(5) by (rule positions_ok_get_pos [OF prefix_positions_ok [OF assms(1,2)]])
  from process_fill_cases [OF assms(3)] assms(4)
  obtain amount price fee rt1 p where
    cl: "\<not> is_opening pos (normalize_side (lower (get_side f)))"
    and cf: "close_fill pos (get_coin f) price amount (get_time f) fee = Inr (rt1, p)"
    and ps: "positions st' = (positions st)(get_coin f \<mapsto> p)"
    and rts: "round_trips st' = round_trips st @ [rt1]"
    unfolding assms(5) by auto
  have rt: "rt1 = rt" using rts assms(4) by simp
  have p: "pos' = p" unfolding assms(6) ps by (rule get_pos_upd)
  have "total_amount pos \<noteq> 0" using cl by (auto simp add: is_opening_def)
  with ok have ne: "entries pos \<noteq> []" and srt: "sorted (map e_timestamp (entries pos))"
    and le: "\<forall>e \<in> set (entries pos). e_timestamp e \<le> get_time f"
    by (simp_all add: entries_ok_def)
  have et: "rt_entry_time rt = e_timestamp (hd (entries pos))"
    using close_fill_Inr(7) [OF cf] ne unfolding rt by (cases "entries pos") simp_all
  have "hd (map e_timestamp (entries pos)) = Min (set (map e_timestamp (entries pos)))"
    using srt ne by (intro sorted_hd_Min) simp_all
  then have mn: "rt_entry_time rt = Min (e_timestamp ` set (entries pos))"
    using et ne by (simp add: hd_map)
  have "hd (entries pos) \<in> set (entries pos)" using ne by simp
  with le have "e_timestamp (hd (entries pos)) \<le> get_time f" by blast
  then have ex: "rt_entry_time rt \<le> rt_exit_time rt"
    using et close_fill_Inr(8) [OF cf] unfolding rt by simp
  have keep: "pos' \<noteq> flat_pos \<longrightarrow> entries pos' = entries pos"
    unfolding p using close_fill_Inr(10) [OF cf] by auto
  have zero: "(\<forall>g \<in> set all_fills. 0 \<le> amount_of g) \<longrightarrow>
       (\<forall>c p. positions st c = Some p \<longrightarrow> (total_amount p = 0 \<longleftrightarrow> entries p = []))"
  proof (intro impI allI)
    fix c p
    assume nonneg: "\<forall>g \<in> set all_fills. 0 \<le> amount_of g" and p: "positions st c = Some p"
    from prefix_flat_when_zero [OF assms(1,2) nonneg] p
    have "total_amount p = 0 \<longrightarrow> entries p = []"
      by (auto simp add: all_flat_when_zero_def flat_when_zero_def)
    moreover from prefix_positions_ok [OF assms(1,2)] p
    have "total_amount p \<noteq> 0 \<longrightarrow> entries p \<noteq> []"
      by (auto simp add: positions_ok_def entries_ok_def)
    ultimately show "total_amount p = 0 \<longleftrightarrow> entries p = []" by blast
  qed
  from ne et mn ex keep zero show ?thesis by blast
qed


theorem entry_time_earliest_witness:
  "match_fills init_state
     (sorted_recent [mk_fill ''BTC'' ''A'' 2 125 4, mk_fill ''BTC'' ''B'' 1 110 2,
                     mk_fill ''BTC'' ''B'' 2 100 1, mk_fill ''BTC'' ''A'' 1 120 3] 0) =
     Inr \<lparr>positions = [''BTC'' \<mapsto> flat_pos],
          round_trips = round_trips after_partial @
            [\<lparr>rt_symbol = ''BTC'', rt_side = Some Long, rt_entry_price = 310 / 3,
              rt_exit_price = 125, rt_quantity = 2, rt_pnl_usd = 130 / 3,
              rt_pnl_pct = 650 / 31, rt_entry_time = 1, rt_exit_time = 4, rt_fee = 0\<rparr>]\<rparr> \<and>
   rt_entry_time \<lparr>rt_symbol = ''BTC'', rt_side = Some Long, rt_entry_price = 310 / 3,
              rt_exit_price = 125, rt_quantity = 2, rt_pnl_usd = 130 / 3,
              rt_pnl_pct = 650 / 31, rt_entry_time = 1, rt_exit_time = 4, rt_fee = 0\<rparr> =
     Min (e_timestamp ` set (entries (get_pos (positions after_partial) ''BTC''))) \<and>
   ((total_amount (get_pos (positions after_partial) ''BTC'') = 0) =
      (entries (get_pos (positions after_partial) ''BTC'') = [])) \<and>
   entries (get_pos (positions after_partial) ''BTC'') =
     [\<lparr>e_timestamp = 1, e_price = 100, e_amount = 2, e_side = ''buy''\<rparr>,
      \<lparr>e_timestamp = 2, e_price = 110, e_amount = 1, e_side = ''buy''\<rparr>]"
proof -
  let ?all = "[mk_fill ''BTC'' ''A'' 2 125 4, mk_fill ''BTC'' ''B'' 1 110 2,
               mk_fill ''BTC'' ''B'' 2 100 1, mk_fill ''BTC'' ''A'' 1 120 3]"
  let ?pre = "[mk_fill ''BTC'' ''B'' 2 100 1, mk_fill ''BTC'' ''B'' 1 110 2,
               mk_fill ''BTC'' ''A'' 1 120 3]"
  let ?f = "mk_fill ''BTC'' ''A'' 2 125 4"
  let ?rt = "\<lparr>rt_symbol = ''BTC'', rt_side = Some Long, rt_entry_price = 310 / 3,
              rt_exit_price = 125, rt_quantity = 2, rt_pnl_usd = 130 / 3,
              rt_pnl_pct = 650 / 31, rt_entry_time = 1, rt_exit_time = 4, rt_fee = 0\<rparr>"
  let ?st' = "\<lparr>positions = [''BTC'' \<mapsto> flat_pos],
          round_trips = round_trips after_partial @ [?rt]\<rparr>"
  have h1: "sorted_recent ?all 0 = ?pre @ ?f # []"
    by (simp add: sorted_recent_def mk_fill_def get_time_def)
  have h2: "match_fills init_state ?pre = Inr after_partial"
    by (simp add: run_defs after_partial_def)
  have h3: "process_fill after_partial ?f = Inr ?st'"
    by (simp add: run_defs after_partial_def)
  have h4: "round_trips ?st' = round_trips after_partial @ [?rt]" by simp
  have c: "get_coin ?f = ''BTC''" by (simp add: mk_fill_def get_coin_def)
  have "match_fills init_state (?pre @ [?f]) =
      (case match_fills init_state ?pre of Inl e \<Rightarrow> Inl e
       | Inr s \<Rightarrow> match_fills s [?f])"
    by (rule match_fills_append)
  also have "\<dots> = match_fills after_partial [?f]" by (simp only: h2 sum.case)
  also have "\<dots> = Inr ?st'" by (simp only: match_fills.simps h3 sum.case)
  finally have run: "match_fills init_state (sorted_recent ?all 0) = Inr ?st'"
    unfolding h1 .
  have h5: "\<forall>g \<in> set ?all. 0 \<le> amount_of g"
    by (simp add: amount_of_def mk_fill_def to_float_def)
  note t = entry_time_earliest [OF h1 h2 h3 h4 refl refl]
  from t have a: "rt_entry_time ?rt =
     Min (e_timestamp ` set (entries (get_pos (positions after_partial) ''BTC'')))"
    unfolding c by blast
  have sp: "positions after_partial ''BTC'' = Some (get_pos (positions after_partial) ''BTC'')"
    by (simp add: after_partial_def get_pos_def)
  from t h5
  have "\<forall>c p. positions after_partial c = Some p \<longrightarrow> (total_amount p = 0 \<longleftrightarrow> entries p = [])"
    by blast
  with sp have b: "(total_amount (get_pos (positions after_partial) ''BTC'') = 0) =
      (entries (get_pos (positions after_partial) ''BTC'') = [])"
    by blast
  let ?pre2 = "[mk_fill ''BTC'' ''B'' 2 100 1, mk_fill ''BTC'' ''B'' 1 110 2]"
  let ?f3 = "mk_fill ''BTC'' ''A'' 1 120 3"
  let ?s2 = "\<lparr>positions = [''BTC'' \<mapsto>
        \<lparr>entries = [\<lparr>e_timestamp = 1, e_price = 100, e_amount = 2, e_side = ''buy''\<rparr>,
                    \<lparr>e_timestamp = 2, e_price = 110, e_amount = 1, e_side = ''buy''\<rparr>],
         pos_side = Some Long, total_amount = 3, avg_entry = 310 / 3\<rparr>],
      round_trips = []\<rparr>"
  have k1: "sorted_recent ?all 0 = ?pre2 @ ?f3 # [?f]"
    by (simp add: sorted_recent_def mk_fill_def get_time_def)
  have k2: "match_fills init_state ?pre2 = Inr ?s2"
    by (simp add: run_defs)
  have k3: "process_fill ?s2 ?f3 = Inr after_partial"
    by (simp add: run_defs after_partial_def)
  have k4: "round_trips after_partial = round_trips ?s2 @
      [\<lparr>rt_symbol = ''BTC'', rt_side = Some Long, rt_entry_price = 310 / 3,
        rt_exit_price = 120, rt_quantity = 1, rt_pnl_usd = 50 / 3, rt_pnl_pct = 500 / 31,
        rt_entry_time = 1, rt_exit_time = 3, rt_fee = 0\<rparr>]"
    by (simp add: after_partial_def)
  have c3: "get_coin ?f3 = ''BTC''" by (simp add: mk_fill_def get_coin_def)
  have nf: "get_pos (positions after_partial) ''BTC'' \<noteq> flat_pos"
    by (simp add: after_partial_def get_pos_def flat_pos_def)
  from entry_time_earliest [OF k1 k2 k3 k4 refl refl]
  have "get_pos (positions after_partial) (get_coin ?f3) \<noteq> flat_pos \<longrightarrow>
      entries (get_pos (positions after_partial) (get_coin ?f3)) =
      entries (get_pos (positions ?s2) (get_coin ?f3))"
    by blast
  with nf have d: "entries (get_pos (positions after_partial) ''BTC'') =
     [\<lparr>e_timestamp = 1, e_price = 100, e_amount = 2, e_side = ''buy''\<rparr>,
      \<lparr>e_timestamp = 2, e_price = 110, e_amount = 1, e_side = ''buy''\<rparr>]"
    unfolding c3 by (simp add: get_pos_def)
  from run a b d show ?thesis by blast
qed


section \<open>Properties of the writer\<close>

subsection \<open>One iteration, and the table over a batch\<close>

lemma log_error_fields:
  "trades (log_error e st) = trades st" "inserted (log_error e st) = inserted st"
  "total_pnl (log_error e st) = total_pnl st" "total_fees (log_error e st) = total_fees st"
  "printed (log_error e st) = printed st @ [ErrorInsertingTrade e]"
  by (simp_all add: log_error_def)

text \<open>The three outcomes of one iteration of the writer.\<close>

lemma write_trade_cases:
  "write_trade db user_id fee_rate st rt = st \<or>
   (\<exists>e. write_trade db user_id fee_rate st rt = log_error e st) \<or>
   (\<exists>entry_time exit_time.
      to_datetime (rt_entry_time rt) = Inr entry_time \<and>
      to_datetime (rt_exit_time rt) = Inr exit_time \<and>
      exists_count (trades st) user_id (rt_symbol rt) entry_time exit_time = 0 \<and>
      write_trade db user_id fee_rate st rt =
        st\<lparr>trades := trades st @ [new_row user_id fee_rate rt entry_time exit_time],
           inserted := inserted st + 1,
           total_pnl := total_pnl st + rt_pnl_usd rt,
           total_fees := total_fees st + fee_amount fee_rate rt\<rparr>)"
  by (auto simp add: write_trade_def Let_def split: sum.splits)

lemma write_trade_inserted_cases:
  assumes "inserted (write_trade db user_id fee_rate st rt) \<noteq> inserted st"
  shows "\<exists>entry_time exit_time.
      to_datetime (rt_entry_time rt) = Inr entry_time \<and>
      to_datetime (rt_exit_time rt) = Inr exit_time \<and>
      write_trade db user_id fee_rate st rt =
        st\<lparr>trades := trades st @ [new_row user_id fee_rate rt entry_time exit_time],
           inserted := inserted st + 1,
           total_pnl := total_pnl st + rt_pnl_usd rt,
           total_fees := total_fees st + fee_amount fee_rate rt\<rparr>"
  using write_trade_cases [of db user_id fee_rate st rt] assms
  by (auto simp add: log_error_fields)

lemma write_trade_skip_stored:
  assumes "already_stored (trades st) user_id rt"
  shows "write_trade db user_id fee_rate st rt = st \<or>
         write_trade db user_id fee_rate st rt = log_error StoreError st"
  using assms by (auto simp add: write_trade_def already_stored_def split: sum.splits)

lemma write_trade_skip_unconvertible:
  assumes "unconvertible rt"
  shows "\<exists>e. write_trade db user_id fee_rate st rt = log_error e st"
  using assms by (auto simp add: write_trade_def unconvertible_def split: sum.splits)

lemma write_trade_settled:
  assumes "already_stored (trades st) user_id rt \<or> unconvertible rt"
  shows "trades (write_trade db user_id fee_rate st rt) = trades st"
    "inserted (write_trade db user_id fee_rate st rt) = inserted st"
    "total_pnl (write_trade db user_id fee_rate st rt) = total_pnl st"
    "total_fees (write_trade db user_id fee_rate st rt) = total_fees st"
  using assms write_trade_skip_stored [of st user_id rt db fee_rate]
    write_trade_skip_unconvertible [of rt db user_id fee_rate st]
  by (auto simp add: log_error_fields)

lemma exists_count_append:
  "exists_count (tbl @ new) u s a b = exists_count tbl u s a b + exists_count new u s a b"
  by (simp add: exists_count_def)

lemma already_stored_mono:
  "already_stored tbl user_id rt \<Longrightarrow> already_stored (tbl @ new) user_id rt"
  by (auto simp add: already_stored_def exists_count_append split: sum.splits)

lemma new_row_matches:
  "matches user_id (rt_symbol rt) entry_time exit_time
     (new_row user_id fee_rate rt entry_time exit_time)"
  by (simp add: matches_def new_row_def)

lemma new_row_stored:
  assumes "to_datetime (rt_entry_time rt) = Inr entry_time"
    "to_datetime (rt_exit_time rt) = Inr exit_time"
  shows "already_stored (tbl @ [new_row user_id fee_rate rt entry_time exit_time]) user_id rt"
  using assms new_row_matches [of user_id rt entry_time exit_time fee_rate]
  by (simp add: already_stored_def exists_count_def)

lemma write_trade_trades_ext:
  "\<exists>new. trades (write_trade db user_id fee_rate st rt) = trades st @ new"
  using write_trade_cases [of db user_id fee_rate st rt]
  by (auto simp add: log_error_fields)

lemma write_all_trades_ext:
  "\<exists>new. trades (write_all db user_id fee_rate st rts) = trades st @ new"
proof (induction rts arbitrary: st)
  case Nil
  then show ?case by simp
next
  case (Cons rt rts)
  obtain n1 where n1: "trades (write_trade db user_id fee_rate st rt) = trades st @ n1"
    using write_trade_trades_ext by blast
  obtain n2 where "trades (write_all db user_id fee_rate (write_trade db user_id fee_rate st rt) rts)
      = trades (write_trade db user_id fee_rate st rt) @ n2"
    using Cons.IH by blast
  with n1 show ?case by simp
qed

lemma write_all_settled:
  "\<forall>rt \<in> set rts. already_stored (trades st) user_id rt \<or> unconvertible rt \<Longrightarrow>
   trades (write_all db user_id fee_rate st rts) = trades st \<and>
   inserted (write_all db user_id fee_rate st rts) = inserted st \<and>
   total_pnl (write_all db user_id fee_rate st rts) = total_pnl st \<and>
   total_fees (write_all db user_id fee_rate st rts) = total_fees st"
proof (induction rts arbitrary: st)
  case Nil
  then show ?case by simp
next
  case (Cons rt rts)
  let ?st' = "write_trade db user_id fee_rate st rt"
  have hd: "already_stored (trades st) user_id rt \<or> unconvertible rt"
    using Cons.prems by simp
  note same = write_trade_settled [OF hd, of db fee_rate]
  have "\<forall>r \<in> set rts. already_stored (trades ?st') user_id r \<or> unconvertible r"
    using Cons.prems same(1) by simp
  from Cons.IH [OF this] same show ?case by simp
qed

lemma inserted_trades_stored:
  "rt \<in> set (inserted_trades db user_id fee_rate st rts) \<Longrightarrow>
   already_stored (trades (write_all db user_id fee_rate st rts)) user_id rt"
proof (induction rts arbitrary: st)
  case Nil
  then show ?case by simp
next
  case (Cons r rts)
  let ?st' = "write_trade db user_id fee_rate st r"
  from Cons.prems have "(inserted ?st' \<noteq> inserted st \<and> rt = r) \<or>
      rt \<in> set (inserted_trades db user_id fee_rate ?st' rts)"
    by (auto simp add: Let_def split: if_splits)
  then show ?case
  proof
    assume h: "inserted ?st' \<noteq> inserted st \<and> rt = r"
    then obtain et xt where c: "to_datetime (rt_entry_time r) = Inr et"
      "to_datetime (rt_exit_time r) = Inr xt"
      and w: "?st' = st\<lparr>trades := trades st @ [new_row user_id fee_rate r et xt],
           inserted := inserted st + 1,
           total_pnl := total_pnl st + rt_pnl_usd r,
           total_fees := total_fees st + fee_amount fee_rate r\<rparr>"
      using write_trade_inserted_cases [of db user_id fee_rate st r] by blast
    have "trades ?st' = trades st @ [new_row user_id fee_rate r et xt]"
      by (subst w) simp
    then have "already_stored (trades ?st') user_id r"
      using new_row_stored [OF c] by simp
    moreover obtain new where "trades (write_all db user_id fee_rate ?st' rts) = trades ?st' @ new"
      using write_all_trades_ext by blast
    ultimately show ?thesis using h already_stored_mono by simp
  next
    assume "rt \<in> set (inserted_trades db user_id fee_rate ?st' rts)"
    from Cons.IH [OF this] show ?thesis by simp
  qed
qed

lemma reliable_write_trade_settles:
  "already_stored (trades (write_trade reliable user_id fee_rate st rt)) user_id rt \<or>
   unconvertible rt"
proof (cases "unconvertible rt")
  case True
  then show ?thesis by simp
next
  case False
  then obtain et xt where c: "to_datetime (rt_entry_time rt) = Inr et"
      "to_datetime (rt_exit_time rt) = Inr xt"
    by (auto simp add: unconvertible_def split: sum.splits)
  show ?thesis
  proof (cases "exists_count (trades st) user_id (rt_symbol rt) et xt > 0")
    case True
    then have "already_stored (trades st) user_id rt"
      using c by (simp add: already_stored_def)
    moreover from this have "trades (write_trade reliable user_id fee_rate st rt) = trades st"
      by (intro write_trade_settled(1)) simp
    ultimately show ?thesis by simp
  next
    case False
    then have "trades (write_trade reliable user_id fee_rate st rt) =
        trades st @ [new_row user_id fee_rate rt et xt]"
      using c by (simp add: write_trade_def reliable_def)
    then show ?thesis using new_row_stored [OF c] by simp
  qed
qed

lemma reliable_write_all_settles:
  "\<forall>rt \<in> set rts. already_stored (trades (write_all reliable user_id fee_rate st rts)) user_id rt
      \<or> unconvertible rt"
proof (induction rts arbitrary: st)
  case Nil
  then show ?case by simp
next
  case (Cons r rts)
  let ?st' = "write_trade reliable user_id fee_rate st r"
  obtain new where n: "trades (write_all reliable user_id fee_rate ?st' rts) = trades ?st' @ new"
    using write_all_trades_ext by blast
  have "already_stored (trades ?st') user_id r \<or> unconvertible r"
    by (rule reliable_write_trade_settles)
  then have "already_stored (trades (write_all reliable user_id fee_rate ?st' rts)) user_id r
      \<or> unconvertible r"
    unfolding n using already_stored_mono by blast
  with Cons.IH [of ?st'] show ?case by simp
qed


subsection \<open>The fee\<close>

lemmas writer_defs = write_trade_def to_datetime_def exists_count_def matches_def new_row_def
  fee_amount_def start_def reliable_def log_error_def rt_win_def rt_loss_def Let_def

lemma write_win_example: "write_trade reliable 7 (1 / 10) (start []) rt_win =
  \<lparr>trades = [\<lparr>r_user_id = 7, r_symbol = ''BTC'', r_hl_coin = ''BTC'', r_side = Some Long,
      r_entry_price = 100, r_exit_price = 110, r_quantity = 2, r_leverage = 1,
      r_profit_usd = 20, r_profit_percent = 10, r_fee_usd = 22,
      r_opened_at = Some 1000, r_closed_at = Some 2000, r_source = ''reconciliation''\<rparr>],
   inserted = 1, total_pnl = 20, total_fees = 22, printed = []\<rparr>"
  by (simp add: writer_defs)

text \<open>
  C6. The fee of a round trip is \<open>quantity * exit_price * fee_rate\<close> when its \<open>pnl_usd\<close> is
  positive and 0 otherwise, and a row the writer inserts carries exactly that fee, which is
  what the iteration adds to \<open>total_fees\<close>.
\<close>

theorem fee_rule:
  "fee_amount fee_rate rt =
     (if rt_pnl_usd rt > 0 then rt_quantity rt * rt_exit_price rt * fee_rate else 0) \<and>
   (inserted (write_trade db user_id fee_rate st rt) \<noteq> inserted st \<longrightarrow>
      (\<exists>row. trades (write_trade db user_id fee_rate st rt) = trades st @ [row] \<and>
         r_fee_usd row = fee_amount fee_rate rt \<and>
         total_fees (write_trade db user_id fee_rate st rt) = total_fees st + r_fee_usd row))"
proof (intro conjI impI)
  show "fee_amount fee_rate rt =
     (if rt_pnl_usd rt > 0 then rt_quantity rt * rt_exit_price rt * fee_rate else 0)"
    by (simp add: fee_amount_def Let_def)
next
  assume "inserted (write_trade db user_id fee_rate st rt) \<noteq> inserted st"
  from write_trade_inserted_cases [OF this]
  obtain et xt where w: "write_trade db user_id fee_rate st rt =
        st\<lparr>trades := trades st @ [new_row user_id fee_rate rt et xt],
           inserted := inserted st + 1,
           total_pnl := total_pnl st + rt_pnl_usd rt,
           total_fees := total_fees st + fee_amount fee_rate rt\<rparr>"
    by blast
  have "r_fee_usd (new_row user_id fee_rate rt et xt) = fee_amount fee_rate rt"
    by (simp add: new_row_def)
  then show "\<exists>row. trades (write_trade db user_id fee_rate st rt) = trades st @ [row] \<and>
         r_fee_usd row = fee_amount fee_rate rt \<and>
         total_fees (write_trade db user_id fee_rate st rt) = total_fees st + r_fee_usd row"
    unfolding w by simp
qed

theorem fee_rule_witness:
  "fee_amount (1 / 10) rt_win = 2 * 110 * (1 / 10) \<and> fee_amount (1 / 10) rt_loss = 0 \<and>
   (\<exists>row. trades (write_trade reliable 7 (1 / 10) (start []) rt_win) = trades (start []) @ [row] \<and>
      r_fee_usd row = 22)"
proof -
  have i: "inserted (write_trade reliable 7 (1 / 10) (start []) rt_win) \<noteq> inserted (start [])"
    unfolding write_win_example by (simp add: start_def)
  have a: "fee_amount (1 / 10) rt_win = 22"
    using fee_rule [of "1 / 10" rt_win reliable 7 "start []"]
    by (simp add: rt_win_def)
  have b: "fee_amount (1 / 10) rt_loss = 0"
    using fee_rule [of "1 / 10" rt_loss reliable 7 "start []"]
    by (simp add: rt_loss_def)
  from fee_rule [of "1 / 10" rt_win reliable 7 "start []"] i a
  have "\<exists>row. trades (write_trade reliable 7 (1 / 10) (start []) rt_win) = trades (start []) @ [row] \<and>
      r_fee_usd row = 22"
    by auto
  with a b show ?thesis by simp
qed


subsection \<open>A failing row, and the returned totals\<close>

lemma write_trade_aggregates:
  "\<exists>new. trades (write_trade db user_id fee_rate st rt) = trades st @ new \<and>
     inserted (write_trade db user_id fee_rate st rt) = inserted st + length new \<and>
     total_pnl (write_trade db user_id fee_rate st rt) =
       total_pnl st + sum_list (map r_profit_usd new) \<and>
     total_fees (write_trade db user_id fee_rate st rt) =
       total_fees st + sum_list (map r_fee_usd new) \<and>
     map r_profit_usd new =
       map rt_pnl_usd (if inserted (write_trade db user_id fee_rate st rt) \<noteq> inserted st
                       then [rt] else []) \<and>
     map r_fee_usd new =
       map (fee_amount fee_rate) (if inserted (write_trade db user_id fee_rate st rt) \<noteq> inserted st
                       then [rt] else [])"
proof -
  from write_trade_cases [of db user_id fee_rate st rt]
  consider (same) "write_trade db user_id fee_rate st rt = st"
    | (err) e where "write_trade db user_id fee_rate st rt = log_error e st"
    | (ins) et xt where "write_trade db user_id fee_rate st rt =
        st\<lparr>trades := trades st @ [new_row user_id fee_rate rt et xt],
           inserted := inserted st + 1,
           total_pnl := total_pnl st + rt_pnl_usd rt,
           total_fees := total_fees st + fee_amount fee_rate rt\<rparr>"
    by blast
  then show ?thesis
  proof cases
    case same
    show ?thesis unfolding same by (intro exI [of _ "[]"]) simp
  next
    case err
    show ?thesis unfolding err by (intro exI [of _ "[]"]) (simp add: log_error_fields)
  next
    case ins
    show ?thesis unfolding ins
      by (intro exI [of _ "[new_row user_id fee_rate rt et xt]"]) (simp add: new_row_def)
  qed
qed

lemma write_all_aggregates:
  "\<exists>new. trades (write_all db user_id fee_rate st rts) = trades st @ new \<and>
     inserted (write_all db user_id fee_rate st rts) = inserted st + length new \<and>
     total_pnl (write_all db user_id fee_rate st rts) =
       total_pnl st + sum_list (map r_profit_usd new) \<and>
     total_fees (write_all db user_id fee_rate st rts) =
       total_fees st + sum_list (map r_fee_usd new) \<and>
     map r_profit_usd new = map rt_pnl_usd (inserted_trades db user_id fee_rate st rts) \<and>
     map r_fee_usd new = map (fee_amount fee_rate) (inserted_trades db user_id fee_rate st rts)"
proof (induction rts arbitrary: st)
  case Nil
  show ?case by simp
next
  case (Cons rt rts)
  let ?st' = "write_trade db user_id fee_rate st rt"
  let ?hd = "if inserted ?st' \<noteq> inserted st then [rt] else []"
  obtain n1 where n1: "trades ?st' = trades st @ n1"
    "inserted ?st' = inserted st + length n1"
    "total_pnl ?st' = total_pnl st + sum_list (map r_profit_usd n1)"
    "total_fees ?st' = total_fees st + sum_list (map r_fee_usd n1)"
    "map r_profit_usd n1 = map rt_pnl_usd ?hd"
    "map r_fee_usd n1 = map (fee_amount fee_rate) ?hd"
    using write_trade_aggregates [of db user_id fee_rate st rt] by blast
  obtain n2 where n2: "trades (write_all db user_id fee_rate ?st' rts) = trades ?st' @ n2"
    "inserted (write_all db user_id fee_rate ?st' rts) = inserted ?st' + length n2"
    "total_pnl (write_all db user_id fee_rate ?st' rts) =
       total_pnl ?st' + sum_list (map r_profit_usd n2)"
    "total_fees (write_all db user_id fee_rate ?st' rts) =
       total_fees ?st' + sum_list (map r_fee_usd n2)"
    "map r_profit_usd n2 = map rt_pnl_usd (inserted_trades db user_id fee_rate ?st' rts)"
    "map r_fee_usd n2 = map (fee_amount fee_rate) (inserted_trades db user_id fee_rate ?st' rts)"
    using Cons.IH [of ?st'] by blast
  have it: "inserted_trades db user_id fee_rate st (rt # rts) =
      ?hd @ inserted_trades db user_id fee_rate ?st' rts"
    by (simp add: Let_def)
  show ?case
  proof (intro exI [of _ "n1 @ n2"] conjI)
    show "trades (write_all db user_id fee_rate st (rt # rts)) = trades st @ n1 @ n2"
      using n1(1) n2(1) by simp
    show "inserted (write_all db user_id fee_rate st (rt # rts)) = inserted st + length (n1 @ n2)"
      using n1(2) n2(2) by simp
    show "total_pnl (write_all db user_id fee_rate st (rt # rts)) =
        total_pnl st + sum_list (map r_profit_usd (n1 @ n2))"
      using n1(3) n2(3) by simp
    show "total_fees (write_all db user_id fee_rate st (rt # rts)) =
        total_fees st + sum_list (map r_fee_usd (n1 @ n2))"
      using n1(4) n2(4) by simp
    show "map r_profit_usd (n1 @ n2) =
        map rt_pnl_usd (inserted_trades db user_id fee_rate st (rt # rts))"
      unfolding it using n1(5) n2(5) by simp
    show "map r_fee_usd (n1 @ n2) =
        map (fee_amount fee_rate) (inserted_trades db user_id fee_rate st (rt # rts))"
      unfolding it using n1(6) n2(6) by simp
  qed
qed

lemma write_trade_insert_fails:
  assumes "to_datetime (rt_entry_time rt) = Inr entry_time"
    "to_datetime (rt_exit_time rt) = Inr exit_time"
    "\<not> select_raises db (trades st) user_id (rt_symbol rt) entry_time exit_time"
    "exists_count (trades st) user_id (rt_symbol rt) entry_time exit_time = 0"
    "insert_raises db (trades st) (new_row user_id fee_rate rt entry_time exit_time)"
  shows "write_trade db user_id fee_rate st rt = log_error StoreError st"
  using assms by (simp add: write_trade_def)

text \<open>
  C9. Once the fee rate is found the function returns the state the loop leaves, whatever
  the store does. A row whose insert raises is logged and changes nothing else, and the
  loop goes on with the rest of the batch. The rows added to the table are those of the
  round trips that were inserted, in order; \<open>inserted\<close> is their number, \<open>total_pnl\<close> the sum
  of their \<open>profit_usd\<close> and \<open>total_fees\<close> the sum of their \<open>fee_usd\<close>.
\<close>

theorem batch_aggregates:
  "(fee_rate_of FEE_TIERS fee_tier = Inr fee_rate \<longrightarrow>
      backfill_trades FEE_TIERS db tbl user_id rts fee_tier =
        Inr (write_all db user_id fee_rate (start tbl) rts)) \<and>
   (to_datetime (rt_entry_time rt) = Inr entry_time \<and>
    to_datetime (rt_exit_time rt) = Inr exit_time \<and>
    \<not> select_raises db (trades st) user_id (rt_symbol rt) entry_time exit_time \<and>
    exists_count (trades st) user_id (rt_symbol rt) entry_time exit_time = 0 \<and>
    insert_raises db (trades st) (new_row user_id fee_rate rt entry_time exit_time) \<longrightarrow>
      write_trade db user_id fee_rate st rt = log_error StoreError st \<and>
      write_all db user_id fee_rate st (rt # rest) =
        write_all db user_id fee_rate
          (st\<lparr>printed := printed st @ [ErrorInsertingTrade StoreError]\<rparr>) rest) \<and>
   (\<exists>new. trades (write_all db user_id fee_rate (start tbl) rts) = tbl @ new \<and>
      inserted (write_all db user_id fee_rate (start tbl) rts) = length new \<and>
      total_pnl (write_all db user_id fee_rate (start tbl) rts) = sum_list (map r_profit_usd new) \<and>
      total_fees (write_all db user_id fee_rate (start tbl) rts) = sum_list (map r_fee_usd new) \<and>
      map r_profit_usd new =
        map rt_pnl_usd (inserted_trades db user_id fee_rate (start tbl) rts) \<and>
      map r_fee_usd new =
        map (fee_amount fee_rate) (inserted_trades db user_id fee_rate (start tbl) rts))"
proof (intro conjI impI)
  assume "fee_rate_of FEE_TIERS fee_tier = Inr fee_rate"
  then show "backfill_trades FEE_TIERS db tbl user_id rts fee_tier =
        Inr (write_all db user_id fee_rate (start tbl) rts)"
    by (simp add: backfill_trades_def)
next
  assume h: "to_datetime (rt_entry_time rt) = Inr entry_time \<and>
    to_datetime (rt_exit_time rt) = Inr exit_time \<and>
    \<not> select_raises db (trades st) user_id (rt_symbol rt) entry_time exit_time \<and>
    exists_count (trades st) user_id (rt_symbol rt) entry_time exit_time = 0 \<and>
    insert_raises db (trades st) (new_row user_id fee_rate rt entry_time exit_time)"
  then show w: "write_trade db user_id fee_rate st rt = log_error StoreError st"
    using write_trade_insert_fails [of rt entry_time exit_time db st user_id fee_rate] by blast
  show "write_all db user_id fee_rate st (rt # rest) =
        write_all db user_id fee_rate
          (st\<lparr>printed := printed st @ [ErrorInsertingTrade StoreError]\<rparr>) rest"
    using w by (simp add: log_error_def)
next
  from write_all_aggregates [of db user_id fee_rate "start tbl" rts]
  show "\<exists>new. trades (write_all db user_id fee_rate (start tbl) rts) = tbl @ new \<and>
      inserted (write_all db user_id fee_rate (start tbl) rts) = length new \<and>
      total_pnl (write_all db user_id fee_rate (start tbl) rts) = sum_list (map r_profit_usd new) \<and>
      total_fees (write_all db user_id fee_rate (start tbl) rts) = sum_list (map r_fee_usd new) \<and>
      map r_profit_usd new =
        map rt_pnl_usd (inserted_trades db user_id fee_rate (start tbl) rts) \<and>
      map r_fee_usd new =
        map (fee_amount fee_rate) (inserted_trades db user_id fee_rate (start tbl) rts)"
    by (simp add: start_def)
qed


theorem batch_aggregates_witness:
  "backfill_trades [''standard'' \<mapsto> Some (1 / 10)] (rejects ''ETH'') [] 7
      [rt_win, rt_loss, rt_other] ''vip'' =
     Inr (write_all (rejects ''ETH'') 7 (1 / 10) (start []) [rt_win, rt_loss, rt_other]) \<and>
   write_trade (rejects ''ETH'') 7 (1 / 10) (start []) rt_loss = log_error StoreError (start []) \<and>
   inserted (write_all (rejects ''ETH'') 7 (1 / 10) (start []) [rt_win, rt_loss, rt_other]) = 2 \<and>
   total_pnl (write_all (rejects ''ETH'') 7 (1 / 10) (start []) [rt_win, rt_loss, rt_other]) = 30 \<and>
   total_fees (write_all (rejects ''ETH'') 7 (1 / 10) (start []) [rt_win, rt_loss, rt_other]) = 26"
proof -
  let ?db = "rejects ''ETH''"
  let ?FT = "[''standard'' \<mapsto> Some (1 / 10 :: real)]"
  have r: "fee_rate_of ?FT ''vip'' = Inr (1 / 10)"
    by (simp add: fee_rate_of_def)
  have f: "to_datetime (rt_entry_time rt_loss) = Inr 1000 \<and>
    to_datetime (rt_exit_time rt_loss) = Inr 2000 \<and>
    \<not> select_raises ?db (trades (start [])) 7 (rt_symbol rt_loss) 1000 2000 \<and>
    exists_count (trades (start [])) 7 (rt_symbol rt_loss) 1000 2000 = 0 \<and>
    insert_raises ?db (trades (start [])) (new_row 7 (1 / 10) rt_loss 1000 2000)"
    by (simp add: writer_defs rejects_def)
  have it: "inserted_trades ?db 7 (1 / 10) (start []) [rt_win, rt_loss, rt_other] =
      [rt_win, rt_other]"
    by (simp add: writer_defs rejects_def rt_other_def)
  note t = batch_aggregates [of ?FT "''vip''" "1 / 10" ?db "[]" 7
      "[rt_win, rt_loss, rt_other]" rt_loss 1000 2000 "start []" "[]"]
  from t r have a: "backfill_trades ?FT ?db [] 7 [rt_win, rt_loss, rt_other] ''vip'' =
     Inr (write_all ?db 7 (1 / 10) (start []) [rt_win, rt_loss, rt_other])"
    by blast
  from t f have b: "write_trade ?db 7 (1 / 10) (start []) rt_loss = log_error StoreError (start [])"
    by blast
  note t3 = t [THEN conjunct2, THEN conjunct2, unfolded it]
  from t3 obtain new :: "trade_row list" where n:
    "inserted (write_all ?db 7 (1 / 10) (start []) [rt_win, rt_loss, rt_other]) = length new"
    "total_pnl (write_all ?db 7 (1 / 10) (start []) [rt_win, rt_loss, rt_other]) =
       sum_list (map r_profit_usd new)"
    "total_fees (write_all ?db 7 (1 / 10) (start []) [rt_win, rt_loss, rt_other]) =
       sum_list (map r_fee_usd new)"
    "map r_profit_usd new = map rt_pnl_usd [rt_win, rt_other]"
    "map r_fee_usd new = map (fee_amount (1 / 10)) [rt_win, rt_other]"
    by blast
  from n(4) have len: "length new = 2"
    using length_map [of r_profit_usd new] by simp
  have c: "inserted (write_all ?db 7 (1 / 10) (start []) [rt_win, rt_loss, rt_other]) = 2"
    using n(1) len by simp
  have d: "total_pnl (write_all ?db 7 (1 / 10) (start []) [rt_win, rt_loss, rt_other]) = 30"
    unfolding n(2) n(4) by (simp add: rt_win_def rt_other_def)
  have e: "total_fees (write_all ?db 7 (1 / 10) (start []) [rt_win, rt_loss, rt_other]) = 26"
    unfolding n(3) n(5) by (simp add: rt_win_def rt_other_def fee_amount_def)
  from a b c d e show ?thesis by blast
qed


subsection \<open>Deduplication and a second run\<close>

lemma write_trade_duplicate:
  assumes "to_datetime (rt_entry_time rt) = Inr entry_time"
    "to_datetime (rt_exit_time rt) = Inr exit_time"
    "\<not> select_raises db (trades st) user_id (rt_symbol rt) entry_time exit_time"
    "exists_count (trades st) user_id (rt_symbol rt) entry_time exit_time > 0"
  shows "write_trade db user_id fee_rate st rt = st"
  using assms by (simp add: write_trade_def)

lemma backfill_trades_Inr:
  assumes "backfill_trades FEE_TIERS db tbl user_id rts fee_tier = Inr final"
  shows "\<exists>fee_rate. fee_rate_of FEE_TIERS fee_tier = Inr fee_rate \<and>
           final = write_all db user_id fee_rate (start tbl) rts"
  using assms by (auto simp add: backfill_trades_def split: sum.splits)

lemma start_fields:
  "trades (start tbl) = tbl" "inserted (start tbl) = 0" "total_pnl (start tbl) = 0"
  "total_fees (start tbl) = 0"
  by (simp_all add: start_def)

lemma second_run_settled:
  assumes "\<forall>rt \<in> set rts2. already_stored tbl user_id rt \<or> unconvertible rt"
    "backfill_trades FEE_TIERS db tbl user_id rts2 fee_tier = Inr final"
  shows "inserted final = 0 \<and> trades final = tbl \<and> total_pnl final = 0 \<and> total_fees final = 0"
proof -
  from backfill_trades_Inr [OF assms(2)] obtain fee_rate where
    f: "final = write_all db user_id fee_rate (start tbl) rts2" by blast
  have "\<forall>rt \<in> set rts2. already_stored (trades (start tbl)) user_id rt \<or> unconvertible rt"
    using assms(1) by (simp add: start_fields)
  from write_all_settled [OF this, of db fee_rate] show ?thesis
    unfolding f by (simp add: start_fields)
qed

lemma inserted_example:
  "inserted_trades (rejects ''ETH'') 7 (1 / 10) (start []) [rt_win, rt_loss, rt_other] =
      [rt_win, rt_other]"
  by (simp add: writer_defs rejects_def rt_other_def)

lemma exists_count_pos:
  "exists_count tbl user_id symbol entry_time exit_time > 0 \<longleftrightarrow>
     (\<exists>r \<in> set tbl. r_user_id r = user_id \<and> r_symbol r = symbol \<and>
        (\<exists>opened closed. r_opened_at r = Some opened \<and> r_closed_at r = Some closed \<and>
           \<bar>opened - entry_time\<bar> < 60 \<and> \<bar>closed - exit_time\<bar> < 60))"
proof -
  have "exists_count tbl user_id symbol entry_time exit_time > 0 \<longleftrightarrow>
      (\<exists>r \<in> set tbl. matches user_id symbol entry_time exit_time r)"
    by (auto simp add: exists_count_def filter_empty_conv)
  also have "\<dots> \<longleftrightarrow> (\<exists>r \<in> set tbl. r_user_id r = user_id \<and> r_symbol r = symbol \<and>
        (\<exists>opened closed. r_opened_at r = Some opened \<and> r_closed_at r = Some closed \<and>
           \<bar>opened - entry_time\<bar> < 60 \<and> \<bar>closed - exit_time\<bar> < 60))"
  proof -
    have "\<And>r. matches user_id symbol entry_time exit_time r \<longleftrightarrow>
        r_user_id r = user_id \<and> r_symbol r = symbol \<and>
        (\<exists>opened closed. r_opened_at r = Some opened \<and> r_closed_at r = Some closed \<and>
           \<bar>opened - entry_time\<bar> < 60 \<and> \<bar>closed - exit_time\<bar> < 60)"
      by (simp add: matches_def split: option.splits)
    then show ?thesis by simp
  qed
  finally show ?thesis .
qed

text \<open>
  C7. The query counts the rows of the same user and symbol whose \<open>opened_at\<close> and
  \<open>closed_at\<close> are each less than 60 seconds from the candidate's times. When it finds one,
  the iteration leaves the state as it is: no insert, no change of the totals, nothing
  logged. So a second call, on the table the first call left, with any store and fee tier,
  over round trips the first call inserted, in any order, inserts nothing and leaves the
  table and the totals at zero; and when the store of the first call never raises this
  holds for any selection of the first call's round trips.
\<close>

theorem writer_idempotent:
  "(exists_count tbl0 user_id symbol entry_time exit_time > 0 \<longleftrightarrow>
     (\<exists>r \<in> set tbl0. r_user_id r = user_id \<and> r_symbol r = symbol \<and>
        (\<exists>opened closed. r_opened_at r = Some opened \<and> r_closed_at r = Some closed \<and>
           \<bar>opened - entry_time\<bar> < 60 \<and> \<bar>closed - exit_time\<bar> < 60))) \<and>
   (to_datetime (rt_entry_time rt) = Inr entry_time \<and>
    to_datetime (rt_exit_time rt) = Inr exit_time \<and>
    \<not> select_raises db (trades st) user_id (rt_symbol rt) entry_time exit_time \<and>
    exists_count (trades st) user_id (rt_symbol rt) entry_time exit_time > 0 \<longrightarrow>
      write_trade db user_id fee_rate st rt = st) \<and>
   (backfill_trades FEE_TIERS1 db1 tbl user_id rts tier1 = Inr final1 \<and>
    fee_rate_of FEE_TIERS1 tier1 = Inr rate1 \<and>
    set rts2 \<subseteq> set (inserted_trades db1 user_id rate1 (start tbl) rts) \<and>
    backfill_trades FEE_TIERS2 db2 (trades final1) user_id rts2 tier2 = Inr final2 \<longrightarrow>
      inserted final2 = 0 \<and> trades final2 = trades final1 \<and>
      total_pnl final2 = 0 \<and> total_fees final2 = 0) \<and>
   (backfill_trades FEE_TIERS1 reliable tbl user_id rts tier1 = Inr final1 \<and>
    set rts3 \<subseteq> set rts \<and>
    backfill_trades FEE_TIERS2 db2 (trades final1) user_id rts3 tier2 = Inr final3 \<longrightarrow>
      inserted final3 = 0 \<and> trades final3 = trades final1 \<and>
      total_pnl final3 = 0 \<and> total_fees final3 = 0)"
proof -
  have p1: "to_datetime (rt_entry_time rt) = Inr entry_time \<and>
    to_datetime (rt_exit_time rt) = Inr exit_time \<and>
    \<not> select_raises db (trades st) user_id (rt_symbol rt) entry_time exit_time \<and>
    exists_count (trades st) user_id (rt_symbol rt) entry_time exit_time > 0 \<longrightarrow>
      write_trade db user_id fee_rate st rt = st"
    using write_trade_duplicate [of rt entry_time exit_time db st user_id fee_rate] by blast
  have p2: "backfill_trades FEE_TIERS1 db1 tbl user_id rts tier1 = Inr final1 \<and>
    fee_rate_of FEE_TIERS1 tier1 = Inr rate1 \<and>
    set rts2 \<subseteq> set (inserted_trades db1 user_id rate1 (start tbl) rts) \<and>
    backfill_trades FEE_TIERS2 db2 (trades final1) user_id rts2 tier2 = Inr final2 \<longrightarrow>
      inserted final2 = 0 \<and> trades final2 = trades final1 \<and>
      total_pnl final2 = 0 \<and> total_fees final2 = 0"
  proof
    assume h: "backfill_trades FEE_TIERS1 db1 tbl user_id rts tier1 = Inr final1 \<and>
      fee_rate_of FEE_TIERS1 tier1 = Inr rate1 \<and>
      set rts2 \<subseteq> set (inserted_trades db1 user_id rate1 (start tbl) rts) \<and>
      backfill_trades FEE_TIERS2 db2 (trades final1) user_id rts2 tier2 = Inr final2"
    then have f1: "final1 = write_all db1 user_id rate1 (start tbl) rts"
      using backfill_trades_Inr [of FEE_TIERS1 db1 tbl user_id rts tier1 final1] by auto
    have "\<forall>rt \<in> set rts2. already_stored (trades final1) user_id rt"
      unfolding f1 using h inserted_trades_stored by blast
    then have "\<forall>rt \<in> set rts2. already_stored (trades final1) user_id rt \<or> unconvertible rt"
      by blast
    from second_run_settled [OF this] h
    show "inserted final2 = 0 \<and> trades final2 = trades final1 \<and>
        total_pnl final2 = 0 \<and> total_fees final2 = 0"
      by blast
  qed
  have p3: "backfill_trades FEE_TIERS1 reliable tbl user_id rts tier1 = Inr final1 \<and>
    set rts3 \<subseteq> set rts \<and>
    backfill_trades FEE_TIERS2 db2 (trades final1) user_id rts3 tier2 = Inr final3 \<longrightarrow>
      inserted final3 = 0 \<and> trades final3 = trades final1 \<and>
      total_pnl final3 = 0 \<and> total_fees final3 = 0"
  proof
    assume h: "backfill_trades FEE_TIERS1 reliable tbl user_id rts tier1 = Inr final1 \<and>
      set rts3 \<subseteq> set rts \<and>
      backfill_trades FEE_TIERS2 db2 (trades final1) user_id rts3 tier2 = Inr final3"
    then obtain rate where f1: "final1 = write_all reliable user_id rate (start tbl) rts"
      using backfill_trades_Inr by blast
    have "\<forall>rt \<in> set rts. already_stored (trades final1) user_id rt \<or> unconvertible rt"
      unfolding f1 by (rule reliable_write_all_settles)
    with h have "\<forall>rt \<in> set rts3. already_stored (trades final1) user_id rt \<or> unconvertible rt"
      by blast
    from second_run_settled [OF this] h
    show "inserted final3 = 0 \<and> trades final3 = trades final1 \<and>
        total_pnl final3 = 0 \<and> total_fees final3 = 0"
      by blast
  qed
  show ?thesis by (rule conjI [OF exists_count_pos conjI [OF p1 conjI [OF p2 p3]]])
qed

theorem writer_idempotent_witness:
  "inserted (write_all reliable 7 (1 / 5)
      (start (trades (write_all (rejects ''ETH'') 7 (1 / 10) (start [])
         [rt_win, rt_loss, rt_other]))) [rt_other, rt_win]) = 0 \<and>
   inserted (write_all (rejects ''ETH'') 7 (1 / 5)
      (start (trades (write_all reliable 7 (1 / 10) (start [])
         [rt_win, rt_loss, rt_other]))) [rt_other, rt_loss, rt_win]) = 0 \<and>
   write_trade reliable 7 (1 / 10) (write_trade reliable 7 (1 / 10) (start []) rt_win) rt_win =
     write_trade reliable 7 (1 / 10) (start []) rt_win"
proof -
  let ?FT1 = "[''standard'' \<mapsto> Some (1 / 10 :: real)]"
  let ?FT2 = "[''standard'' \<mapsto> Some (1 / 5 :: real)]"
  let ?rts = "[rt_win, rt_loss, rt_other]"
  let ?f1 = "write_all (rejects ''ETH'') 7 (1 / 10) (start []) ?rts"
  let ?f2 = "write_all reliable 7 (1 / 5) (start (trades ?f1)) [rt_other, rt_win]"
  let ?g1 = "write_all reliable 7 (1 / 10) (start []) ?rts"
  let ?g3 = "write_all (rejects ''ETH'') 7 (1 / 5) (start (trades ?g1)) [rt_other, rt_loss, rt_win]"
  let ?s1 = "write_trade reliable 7 (1 / 10) (start []) rt_win"
  have r1: "fee_rate_of ?FT1 ''standard'' = Inr (1 / 10)" by (simp add: fee_rate_of_def)
  have r2: "fee_rate_of ?FT2 ''standard'' = Inr (1 / 5)" by (simp add: fee_rate_of_def)
  have a: "to_datetime (rt_entry_time rt_win) = Inr 1000 \<and>
    to_datetime (rt_exit_time rt_win) = Inr 2000 \<and>
    \<not> select_raises reliable (trades ?s1) 7 (rt_symbol rt_win) 1000 2000 \<and>
    exists_count (trades ?s1) 7 (rt_symbol rt_win) 1000 2000 > 0"
    unfolding write_win_example by (simp add: writer_defs)
  have b: "backfill_trades ?FT1 (rejects ''ETH'') [] 7 ?rts ''standard'' = Inr ?f1 \<and>
    fee_rate_of ?FT1 ''standard'' = Inr (1 / 10) \<and>
    set [rt_other, rt_win] \<subseteq> set (inserted_trades (rejects ''ETH'') 7 (1 / 10) (start []) ?rts) \<and>
    backfill_trades ?FT2 reliable (trades ?f1) 7 [rt_other, rt_win] ''standard'' = Inr ?f2"
    unfolding inserted_example by (simp add: backfill_trades_def r1 r2)
  have c: "backfill_trades ?FT1 reliable [] 7 ?rts ''standard'' = Inr ?g1 \<and>
    set [rt_other, rt_loss, rt_win] \<subseteq> set ?rts \<and>
    backfill_trades ?FT2 (rejects ''ETH'') (trades ?g1) 7 [rt_other, rt_loss, rt_win] ''standard''
      = Inr ?g3"
    by (simp add: backfill_trades_def r1 r2)
  note t = writer_idempotent [of "[]" 7 "[]" 1000 2000 rt_win reliable ?s1 "1 / 10"
      ?FT1 "rejects ''ETH''" "[]" ?rts "''standard''" ?f1 "1 / 10" "[rt_other, rt_win]"
      ?FT2 reliable "''standard''" ?f2]
  note u = writer_idempotent [of "[]" 7 "[]" 1000 2000 rt_win reliable ?s1 "1 / 10"
      ?FT1 "rejects ''ETH''" "[]" ?rts "''standard''" ?g1 "1 / 10" "[rt_other, rt_win]"
      ?FT2 "rejects ''ETH''" "''standard''" ?f2 "[rt_other, rt_loss, rt_win]" ?g3]
  from t a have x: "write_trade reliable 7 (1 / 10) ?s1 rt_win = ?s1" by blast
  from t b have y: "inserted ?f2 = 0" by blast
  from u c have z: "inserted ?g3 = 0" by blast
  from x y z show ?thesis by blast
qed


end
